theory Spec2Isabelle
  imports Main
begin

section \<open>Errors\<close>

text \<open>
  Modelled from the spec: the macros \<^verbatim>\<open>VELOX_DCHECK\<close>, \<^verbatim>\<open>DCHECK\<close> and
  \<^verbatim>\<open>VELOX_UNSUPPORTED\<close> are defined outside the files at hand. The first two are
  assertions of debug builds ("asserted/fatal in debug builds"); the model keeps them
  switched on and records a failure as \<open>DCheckFailed\<close>. The third "fails loudly and
  immediately with a distinct unsupported signal": the value \<open>Unsupported\<close>.
  \<^verbatim>\<open>std::optional::value()\<close> on an empty optional throws: \<open>BadOptionalAccess\<close>.
\<close>

datatype error = DCheckFailed | Unsupported | BadOptionalAccess

section \<open>The decoded source\<close>

text \<open>
  Modelled from the spec: \<^verbatim>\<open>DecodedVector\<close> is declared outside the files at hand.
  The readers only call \<^verbatim>\<open>isNullAt\<close>, \<^verbatim>\<open>index\<close>, \<^verbatim>\<open>mayHaveNulls\<close>,
  \<^verbatim>\<open>mayHaveNullsRecursive\<close> and \<^verbatim>\<open>valueAt\<close> on it, so it is taken as a parameter: a
  record of exactly these operations, with nothing assumed about them.
\<close>

record 'a DecodedVector =
  isNullAt :: "int \<Rightarrow> bool"
  index :: "int \<Rightarrow> int"
  mayHaveNulls :: bool
  decodedMayHaveNullsRecursive :: bool
  valueAt :: "int \<Rightarrow> 'a"

section \<open>The 32-bit index type\<close>

text \<open>
  \<^verbatim>\<open>vector_size_t\<close> is a signed 32-bit integer. It is modelled by \<open>int\<close>; \<open>isInt32\<close> says
  that a value lies in its range. Where the code adds two \<^verbatim>\<open>vector_size_t\<close> values
  (the end of a window, the position of a view's element) the model wraps the sum
  into the range as two's-complement hardware does (\<open>add32\<close>); C++ itself leaves
  signed overflow undefined. The loop steps \<^verbatim>\<open>++index\<close> are taken below a bound of the
  same type and cannot leave the range; they and the steps \<^verbatim>\<open>index_++\<close> of the
  accessors are plain additions of one.
\<close>

definition isInt32 :: "int \<Rightarrow> bool" where
  "isInt32 x = (- 2147483648 \<le> x \<and> x \<le> 2147483647)"

definition wrap32 :: "int \<Rightarrow> int" where
  "wrap32 x = (x + 2147483648) mod 4294967296 - 2147483648"

definition add32 :: "int \<Rightarrow> int \<Rightarrow> int" where
  "add32 a b = wrap32 (a + b)"

section \<open>The reader hierarchy\<close>

text \<open>
  One constructor per specialisation of \<^verbatim>\<open>VectorReader\<close>. A Map reader holds
  \<^verbatim>\<open>decoded_\<close>, \<^verbatim>\<open>offsets_\<close>, \<^verbatim>\<open>lengths_\<close>, \<^verbatim>\<open>keyReader_\<close>, \<^verbatim>\<open>valReader_\<close>,
  \<^verbatim>\<open>keysMayHaveNulls_\<close> and \<^verbatim>\<open>valuesMayHaveNulls_\<close>; an Array reader holds
  \<^verbatim>\<open>decoded_\<close>, \<^verbatim>\<open>offsets_\<close>, \<^verbatim>\<open>lengths_\<close>, \<^verbatim>\<open>childReader_\<close> and
  \<^verbatim>\<open>valuesMayHaveNulls_\<close>. The raw offset and length arrays are pointers read
  without any bound, hence functions of the physical index.
\<close>

datatype 'a VectorReader =
    ScalarReader "'a DecodedVector"
  | MapReader "'a DecodedVector" "int \<Rightarrow> int" "int \<Rightarrow> int"
      "'a VectorReader" "'a VectorReader" "bool option" "bool option"
  | ArrayReader "'a DecodedVector" "int \<Rightarrow> int" "int \<Rightarrow> int"
      "'a VectorReader" "bool option"
  | RowReader "'a DecodedVector" "'a VectorReader list"
  | VariadicReader "'a VectorReader list"
  | GenericReader "'a DecodedVector"

text \<open>
  The loop shared by the ranged \<^verbatim>\<open>containsNull(startIndex, endIndex)\<close> of the scalar,
  Map, Array and Row readers:
  \<^verbatim>\<open>for (auto index = startIndex; index < endIndex; ++index)
     if (containsNull(index)) return true;
   return false;\<close>
\<close>

function anyInRange :: "(int \<Rightarrow> error + bool) \<Rightarrow> int \<Rightarrow> int \<Rightarrow> error + bool" where
  "anyInRange f startIndex endIndex =
     (if startIndex < endIndex then
        (case f startIndex of
           Inl e \<Rightarrow> Inl e
         | Inr True \<Rightarrow> Inr True
         | Inr False \<Rightarrow> anyInRange f (startIndex + 1) endIndex)
      else Inr False)"
  by pat_completeness auto
termination
  by (relation "measure (\<lambda>(f, s, e). nat (e - s))") auto

declare anyInRange.simps [simp del]

text \<open>Short-circuit \<^verbatim>\<open>a || b\<close> where either operand may fail.\<close>

definition orElse :: "error + bool \<Rightarrow> error + bool \<Rightarrow> error + bool" where
  "orElse a b = (case a of Inl e \<Rightarrow> Inl e | Inr True \<Rightarrow> Inr True | Inr False \<Rightarrow> b)"

fun containsNull :: "'a VectorReader \<Rightarrow> int \<Rightarrow> error + bool"
  and containsNullRange :: "'a VectorReader \<Rightarrow> int \<Rightarrow> int \<Rightarrow> error + bool"
  and anyChildContainsNull :: "'a VectorReader list \<Rightarrow> int \<Rightarrow> error + bool"
  and anyChildContainsNullRange :: "'a VectorReader list \<Rightarrow> int \<Rightarrow> int \<Rightarrow> error + bool"
where
  "containsNull (ScalarReader d) i = Inr (isNullAt d i)"
| "containsNull (MapReader d offsets lengths keyReader valReader keysMayHaveNulls valuesMayHaveNulls) i =
     (case (keysMayHaveNulls, valuesMayHaveNulls) of
        (Some k, Some v) \<Rightarrow>
          (let decodedIndex = index d i in
           orElse (Inr (isNullAt d i))
             (orElse
               (if k then containsNullRange keyReader (offsets decodedIndex)
                            (add32 (offsets decodedIndex) (lengths decodedIndex))
                else Inr False)
               (if v then containsNullRange valReader (offsets decodedIndex)
                            (add32 (offsets decodedIndex) (lengths decodedIndex))
                else Inr False)))
      | _ \<Rightarrow> Inl DCheckFailed)"
| "containsNull (ArrayReader d offsets lengths childReader valuesMayHaveNulls) i =
     (case valuesMayHaveNulls of
        Some v \<Rightarrow>
          (let decodedIndex = index d i in
           orElse (Inr (isNullAt d i))
             (if v then containsNullRange childReader (offsets decodedIndex)
                          (add32 (offsets decodedIndex) (lengths decodedIndex))
              else Inr False))
      | None \<Rightarrow> Inl DCheckFailed)"
| "containsNull (RowReader d childReaders) i =
     (if isNullAt d i then Inr True
      else anyChildContainsNull childReaders (index d i))"
| "containsNull (VariadicReader childReaders) i = anyChildContainsNull childReaders i"
| "containsNull (GenericReader d) i = Inl Unsupported"
| "containsNullRange (VariadicReader childReaders) s e = anyChildContainsNullRange childReaders s e"
| "containsNullRange (GenericReader d) s e = Inl Unsupported"
| "containsNullRange r s e = anyInRange (\<lambda>i. containsNull r i) s e"
| "anyChildContainsNull [] i = Inr False"
| "anyChildContainsNull (r # rs) i = orElse (containsNull r i) (anyChildContainsNull rs i)"
| "anyChildContainsNullRange [] s e = Inr False"
| "anyChildContainsNullRange (r # rs) s e =
     orElse (containsNullRange r s e) (anyChildContainsNullRange rs s e)"

text \<open>
  \<^verbatim>\<open>mayHaveNullsRecursive()\<close>. The Row reader asks its decoded source; the Variadic
  reader returns at the first child that answers true.
\<close>

fun mayHaveNullsRecursive :: "'a VectorReader \<Rightarrow> error + bool"
  and anyChildMayHaveNullsRecursive :: "'a VectorReader list \<Rightarrow> error + bool"
where
  "mayHaveNullsRecursive (ScalarReader d) = Inr (mayHaveNulls d)"
| "mayHaveNullsRecursive (MapReader d offsets lengths keyReader valReader keysMayHaveNulls valuesMayHaveNulls) =
     (case (keysMayHaveNulls, valuesMayHaveNulls) of
        (Some k, Some v) \<Rightarrow> Inr (mayHaveNulls d \<or> k \<or> v)
      | _ \<Rightarrow> Inl DCheckFailed)"
| "mayHaveNullsRecursive (ArrayReader d offsets lengths childReader valuesMayHaveNulls) =
     (case valuesMayHaveNulls of
        Some v \<Rightarrow> Inr (mayHaveNulls d \<or> v)
      | None \<Rightarrow> Inl DCheckFailed)"
| "mayHaveNullsRecursive (RowReader d childReaders) = Inr (decodedMayHaveNullsRecursive d)"
| "mayHaveNullsRecursive (VariadicReader childReaders) = anyChildMayHaveNullsRecursive childReaders"
| "mayHaveNullsRecursive (GenericReader d) = Inl Unsupported"
| "anyChildMayHaveNullsRecursive [] = Inr False"
| "anyChildMayHaveNullsRecursive (r # rs) =
     orElse (mayHaveNullsRecursive r) (anyChildMayHaveNullsRecursive rs)"

text \<open>
  \<^verbatim>\<open>setChildrenMayHaveNulls()\<close> mutates the reader; the model returns the reader after
  the call, or the exception that left it.
\<close>

fun setChildrenMayHaveNulls :: "'a VectorReader \<Rightarrow> error + 'a VectorReader"
  and setAllChildrenMayHaveNulls :: "'a VectorReader list \<Rightarrow> error + 'a VectorReader list"
where
  "setChildrenMayHaveNulls (ScalarReader d) = Inr (ScalarReader d)"
| "setChildrenMayHaveNulls (MapReader d offsets lengths keyReader valReader keysMayHaveNulls valuesMayHaveNulls) =
     (case setChildrenMayHaveNulls keyReader of
        Inl e \<Rightarrow> Inl e
      | Inr keyReader' \<Rightarrow>
         (case setChildrenMayHaveNulls valReader of
            Inl e \<Rightarrow> Inl e
          | Inr valReader' \<Rightarrow>
             (case mayHaveNullsRecursive keyReader' of
                Inl e \<Rightarrow> Inl e
              | Inr k \<Rightarrow>
                 (case mayHaveNullsRecursive valReader' of
                    Inl e \<Rightarrow> Inl e
                  | Inr v \<Rightarrow>
                      Inr (MapReader d offsets lengths keyReader' valReader' (Some k) (Some v))))))"
| "setChildrenMayHaveNulls (ArrayReader d offsets lengths childReader valuesMayHaveNulls) =
     (case setChildrenMayHaveNulls childReader of
        Inl e \<Rightarrow> Inl e
      | Inr childReader' \<Rightarrow>
         (case mayHaveNullsRecursive childReader' of
            Inl e \<Rightarrow> Inl e
          | Inr v \<Rightarrow> Inr (ArrayReader d offsets lengths childReader' (Some v))))"
| "setChildrenMayHaveNulls (RowReader d childReaders) =
     (case setAllChildrenMayHaveNulls childReaders of
        Inl e \<Rightarrow> Inl e
      | Inr childReaders' \<Rightarrow> Inr (RowReader d childReaders'))"
| "setChildrenMayHaveNulls (VariadicReader childReaders) =
     (case setAllChildrenMayHaveNulls childReaders of
        Inl e \<Rightarrow> Inl e
      | Inr childReaders' \<Rightarrow> Inr (VariadicReader childReaders'))"
| "setChildrenMayHaveNulls (GenericReader d) = Inl Unsupported"
| "setAllChildrenMayHaveNulls [] = Inr []"
| "setAllChildrenMayHaveNulls (r # rs) =
     (case setChildrenMayHaveNulls r of
        Inl e \<Rightarrow> Inl e
      | Inr r' \<Rightarrow>
         (case setAllChildrenMayHaveNulls rs of
            Inl e \<Rightarrow> Inl e
          | Inr rs' \<Rightarrow> Inr (r' # rs')))"

text \<open>\<^verbatim>\<open>isSet(offset)\<close>: the Variadic pack itself is never null.\<close>

fun isSet :: "'a VectorReader \<Rightarrow> int \<Rightarrow> bool" where
  "isSet (ScalarReader d) offset = (\<not> isNullAt d offset)"
| "isSet (MapReader d offsets lengths keyReader valReader k v) offset = (\<not> isNullAt d offset)"
| "isSet (ArrayReader d offsets lengths childReader v) offset = (\<not> isNullAt d offset)"
| "isSet (RowReader d childReaders) offset = (\<not> isNullAt d offset)"
| "isSet (VariadicReader childReaders) offset = True"
| "isSet (GenericReader d) offset = (\<not> isNullAt d offset)"

section \<open>Views and accessors\<close>

text \<open>
  The view types hold a pointer to a reader; the model stores the reader itself, which
  is what the pointer reads while the views are in use. Only the constructors that take
  a reader are modelled (the constructors without arguments build an empty view over
  a null reader for the older load protocol).
\<close>

record 'a ArrayView =
  av_reader :: "'a VectorReader"
  av_offset :: int
  av_size :: int

record 'a MapView =
  mv_keyReader :: "'a VectorReader"
  mv_valueReader :: "'a VectorReader"
  mv_offset :: int
  mv_size :: int

text \<open>
  What \<^verbatim>\<open>operator[]\<close> of a reader returns (\<^verbatim>\<open>exec_in_t\<close>): the raw value for a scalar,
  a view for the nested shapes. The Row, Variadic and Generic views are declared
  elsewhere; they are kept as the arguments the readers build them from (the cast
  cache of the Generic view is left out).
\<close>

datatype 'a exec_in_t =
    Value 'a
  | MapViewOf "'a MapView"
  | ArrayViewOf "'a ArrayView"
  | RowViewOf "'a VectorReader list" int
  | VariadicViewOf "'a VectorReader list" int
  | GenericViewOf "'a DecodedVector" int

fun subscript_reader :: "'a VectorReader \<Rightarrow> int \<Rightarrow> 'a exec_in_t" where
  "subscript_reader (ScalarReader d) offset = Value (valueAt d offset)"
| "subscript_reader (MapReader d offsets lengths keyReader valReader k v) offset =
     (let idx = index d offset in
      MapViewOf \<lparr>mv_keyReader = keyReader, mv_valueReader = valReader,
                 mv_offset = offsets idx, mv_size = lengths idx\<rparr>)"
| "subscript_reader (ArrayReader d offsets lengths childReader v) offset =
     (let idx = index d offset in
      ArrayViewOf \<lparr>av_reader = childReader, av_offset = offsets idx, av_size = lengths idx\<rparr>)"
| "subscript_reader (RowReader d childReaders) offset = RowViewOf childReaders (index d offset)"
| "subscript_reader (VariadicReader childReaders) offset = VariadicViewOf childReaders offset"
| "subscript_reader (GenericReader d) offset = GenericViewOf d (index d offset)"

subsection \<open>OptionalVectorValueAccessor\<close>

record 'a OptionalVectorValueAccessor =
  acc_reader :: "'a VectorReader"
  acc_index :: int

definition has_value :: "'a OptionalVectorValueAccessor \<Rightarrow> bool" where
  "has_value a = isSet (acc_reader a) (acc_index a)"

text \<open>\<^verbatim>\<open>value()\<close>: \<^verbatim>\<open>DCHECK(has_value())\<close>, then \<^verbatim>\<open>(*reader_)[index_]\<close>.\<close>

definition value_acc :: "'a OptionalVectorValueAccessor \<Rightarrow> error + 'a exec_in_t" where
  "value_acc a =
     (if has_value a then Inr (subscript_reader (acc_reader a) (acc_index a))
      else Inl DCheckFailed)"

definition incrementIndex_acc :: "'a OptionalVectorValueAccessor \<Rightarrow> 'a OptionalVectorValueAccessor" where
  "incrementIndex_acc a = a\<lparr>acc_index := acc_index a + 1\<rparr>"

definition index_acc :: "'a OptionalVectorValueAccessor \<Rightarrow> int" where
  "index_acc a = acc_index a"

text \<open>
  \<^verbatim>\<open>operator==\<close> between two accessors. The comparison of the two element values is the
  \<^verbatim>\<open>==\<close> of the element type, passed as \<open>eq\<close>.
\<close>

definition eq_acc ::
  "('a exec_in_t \<Rightarrow> 'a exec_in_t \<Rightarrow> bool) \<Rightarrow>
   'a OptionalVectorValueAccessor \<Rightarrow> 'a OptionalVectorValueAccessor \<Rightarrow> error + bool" where
  "eq_acc eq this other =
     (if has_value other \<noteq> has_value this then Inr False
      else if has_value this then
        (case value_acc this of
           Inl e \<Rightarrow> Inl e
         | Inr x \<Rightarrow> (case value_acc other of Inl e \<Rightarrow> Inl e | Inr y \<Rightarrow> Inr (eq x y)))
      else Inr True)"

text \<open>\<^verbatim>\<open>!(...)\<close> applied to a comparison that may have failed.\<close>

definition notE :: "error + bool \<Rightarrow> error + bool" where
  "notE r = (case r of Inl e \<Rightarrow> Inl e | Inr b \<Rightarrow> Inr (\<not> b))"

definition neq_acc ::
  "('a exec_in_t \<Rightarrow> 'a exec_in_t \<Rightarrow> bool) \<Rightarrow>
   'a OptionalVectorValueAccessor \<Rightarrow> 'a OptionalVectorValueAccessor \<Rightarrow> error + bool" where
  "neq_acc eq this other = notE (eq_acc eq this other)"

text \<open>
  Comparison with a \<^verbatim>\<open>std::optional<T>\<close>, modelled as \<open>'t option\<close>. The mixed
  comparison \<^verbatim>\<open>lhs.value() == rhs.value()\<close> between a \<^verbatim>\<open>T\<close> and an element is the
  parameter \<open>eq\<close>.
\<close>

definition optional_value :: "'t option \<Rightarrow> error + 't" where
  "optional_value x = (case x of None \<Rightarrow> Inl BadOptionalAccess | Some v \<Rightarrow> Inr v)"

definition eq_optional_acc ::
  "('t \<Rightarrow> 'a exec_in_t \<Rightarrow> bool) \<Rightarrow> 't option \<Rightarrow> 'a OptionalVectorValueAccessor \<Rightarrow> error + bool" where
  "eq_optional_acc eq lhs rhs =
     (if (lhs \<noteq> None) \<noteq> has_value rhs then Inr False
      else if lhs \<noteq> None then
        (case optional_value lhs of
           Inl e \<Rightarrow> Inl e
         | Inr x \<Rightarrow> (case value_acc rhs of Inl e \<Rightarrow> Inl e | Inr y \<Rightarrow> Inr (eq x y)))
      else Inr True)"

definition eq_acc_optional ::
  "('t \<Rightarrow> 'a exec_in_t \<Rightarrow> bool) \<Rightarrow> 'a OptionalVectorValueAccessor \<Rightarrow> 't option \<Rightarrow> error + bool" where
  "eq_acc_optional eq lhs rhs = eq_optional_acc eq rhs lhs"

definition neq_optional_acc ::
  "('t \<Rightarrow> 'a exec_in_t \<Rightarrow> bool) \<Rightarrow> 't option \<Rightarrow> 'a OptionalVectorValueAccessor \<Rightarrow> error + bool" where
  "neq_optional_acc eq lhs rhs = notE (eq_optional_acc eq lhs rhs)"

definition neq_acc_optional ::
  "('t \<Rightarrow> 'a exec_in_t \<Rightarrow> bool) \<Rightarrow> 'a OptionalVectorValueAccessor \<Rightarrow> 't option \<Rightarrow> error + bool" where
  "neq_acc_optional eq lhs rhs = notE (eq_acc_optional eq lhs rhs)"

subsection \<open>IndexBasedIterator\<close>

text \<open>
  The iterator wraps one element of a type \<^verbatim>\<open>T\<close> that has \<^verbatim>\<open>index()\<close> and
  \<^verbatim>\<open>incrementIndex()\<close>; the two operations of \<^verbatim>\<open>T\<close> are passed as \<open>idx\<close> and \<open>inc\<close>.
\<close>

datatype 'e IndexBasedIterator = IndexBasedIterator (element: 'e)

definition neq_iter :: "('e \<Rightarrow> int) \<Rightarrow> 'e IndexBasedIterator \<Rightarrow> 'e IndexBasedIterator \<Rightarrow> bool" where
  "neq_iter idx this rhs = (idx (element this) \<noteq> idx (element rhs))"

definition eq_iter :: "('e \<Rightarrow> int) \<Rightarrow> 'e IndexBasedIterator \<Rightarrow> 'e IndexBasedIterator \<Rightarrow> bool" where
  "eq_iter idx this rhs = (idx (element this) = idx (element rhs))"

definition less_iter :: "('e \<Rightarrow> int) \<Rightarrow> 'e IndexBasedIterator \<Rightarrow> 'e IndexBasedIterator \<Rightarrow> bool" where
  "less_iter idx this rhs = (idx (element this) < idx (element rhs))"

definition deref_iter :: "'e IndexBasedIterator \<Rightarrow> 'e" where
  "deref_iter this = element this"

definition preincrement_iter :: "('e \<Rightarrow> 'e) \<Rightarrow> 'e IndexBasedIterator \<Rightarrow> 'e IndexBasedIterator" where
  "preincrement_iter inc this = IndexBasedIterator (inc (element this))"

text \<open>Post-increment returns the old iterator together with the advanced one.\<close>

definition postincrement_iter ::
  "('e \<Rightarrow> 'e) \<Rightarrow> 'e IndexBasedIterator \<Rightarrow> 'e IndexBasedIterator \<times> 'e IndexBasedIterator" where
  "postincrement_iter inc this = (this, preincrement_iter inc this)"

subsection \<open>ArrayView\<close>

definition begin_av :: "'a ArrayView \<Rightarrow> 'a OptionalVectorValueAccessor IndexBasedIterator" where
  "begin_av v = IndexBasedIterator \<lparr>acc_reader = av_reader v, acc_index = av_offset v\<rparr>"

definition end_av :: "'a ArrayView \<Rightarrow> 'a OptionalVectorValueAccessor IndexBasedIterator" where
  "end_av v = IndexBasedIterator \<lparr>acc_reader = av_reader v, acc_index = add32 (av_offset v) (av_size v)\<rparr>"

definition mayHaveNulls_av :: "'a ArrayView \<Rightarrow> bool" where
  "mayHaveNulls_av v = False"

definition subscript_av :: "'a ArrayView \<Rightarrow> int \<Rightarrow> 'a OptionalVectorValueAccessor" where
  "subscript_av v i = \<lparr>acc_reader = av_reader v, acc_index = add32 i (av_offset v)\<rparr>"

definition at_av :: "'a ArrayView \<Rightarrow> int \<Rightarrow> 'a OptionalVectorValueAccessor" where
  "at_av v i = subscript_av v i"

text \<open>
  \<^verbatim>\<open>size()\<close> returns \<^verbatim>\<open>size_\<close> converted from the signed 32-bit \<^verbatim>\<open>vector_size_t\<close> to
  the unsigned 64-bit \<^verbatim>\<open>size_t\<close>: the value modulo \<open>2 ^ 64\<close>.
\<close>

definition size_av :: "'a ArrayView \<Rightarrow> nat" where
  "size_av v = nat (av_size v mod 2 ^ 64)"

subsection \<open>The three ways to walk an ArrayView\<close>

text \<open>
  The loops are the callers': the three loop forms of \<^verbatim>\<open>MapViewTest.cpp\<close>, here over an
  ArrayView:
  \<^verbatim>\<open>for (int j = 0; j < view.size(); j++) visit(view[j]);\<close>
  \<^verbatim>\<open>for (auto it = view.begin(); it != view.end(); ++it) visit(*it);\<close>
  \<^verbatim>\<open>for (const auto& e : view) visit(e);\<close>
  Each returns the elements it visited, in order. The iterator loops stop when the
  two indices are equal, which nothing guarantees for a view of negative size: they
  are partial functions, and \<open>None\<close> means that the loop does not return.
  The range-based loop evaluates \<^verbatim>\<open>end()\<close> once, the explicit loop at every test.
\<close>

function indexedLoop ::
  "'a ArrayView \<Rightarrow> int \<Rightarrow> 'a OptionalVectorValueAccessor list \<Rightarrow> 'a OptionalVectorValueAccessor list" where
  "indexedLoop v j visited =
     (if j < int (size_av v) then indexedLoop v (j + 1) (visited @ [subscript_av v j])
      else visited)"
  by pat_completeness auto
termination
  by (relation "measure (\<lambda>(v, j, visited). nat (int (size_av v) - j))") auto

declare indexedLoop.simps [simp del]

partial_function (option) iteratorLoop ::
  "'a ArrayView \<Rightarrow> 'a OptionalVectorValueAccessor IndexBasedIterator \<Rightarrow>
   'a OptionalVectorValueAccessor list \<Rightarrow> 'a OptionalVectorValueAccessor list option" where
  "iteratorLoop v it visited =
     (if neq_iter index_acc it (end_av v)
      then iteratorLoop v (preincrement_iter incrementIndex_acc it) (visited @ [deref_iter it])
      else Some visited)"

partial_function (option) rangeLoop ::
  "'a OptionalVectorValueAccessor IndexBasedIterator \<Rightarrow>
   'a OptionalVectorValueAccessor IndexBasedIterator \<Rightarrow>
   'a OptionalVectorValueAccessor list \<Rightarrow> 'a OptionalVectorValueAccessor list option" where
  "rangeLoop it e visited =
     (if neq_iter index_acc it e
      then rangeLoop (preincrement_iter incrementIndex_acc it) e (visited @ [deref_iter it])
      else Some visited)"

definition rangeFor :: "'a ArrayView \<Rightarrow> 'a OptionalVectorValueAccessor list option" where
  "rangeFor v = rangeLoop (begin_av v) (end_av v) []"

subsection \<open>MapView\<close>

record 'a LazyKeyAccessor =
  key_reader :: "'a VectorReader"
  key_index :: int



text \<open>Conversion of a key accessor to the key: \<^verbatim>\<open>(*reader_)[index_]\<close>.\<close>

definition key_element :: "'a LazyKeyAccessor \<Rightarrow> 'a exec_in_t" where
  "key_element k = subscript_reader (key_reader k) (key_index k)"

record 'a Element =
  first :: "'a LazyKeyAccessor"
  second :: "'a OptionalVectorValueAccessor"
  elem_index :: int

text \<open>The constructor \<^verbatim>\<open>Element(keyReader, valueReader, index)\<close>.\<close>

definition Element :: "'a VectorReader \<Rightarrow> 'a VectorReader \<Rightarrow> int \<Rightarrow> 'a Element" where
  "Element keyReader valueReader i =
     \<lparr>first = \<lparr>key_reader = keyReader, key_index = i\<rparr>,
      second = \<lparr>acc_reader = valueReader, acc_index = i\<rparr>,
      elem_index = i\<rparr>"



definition begin_mv :: "'a MapView \<Rightarrow> 'a Element IndexBasedIterator" where
  "begin_mv m = IndexBasedIterator (Element (mv_keyReader m) (mv_valueReader m) (add32 0 (mv_offset m)))"

definition end_mv :: "'a MapView \<Rightarrow> 'a Element IndexBasedIterator" where
  "end_mv m = IndexBasedIterator (Element (mv_keyReader m) (mv_valueReader m) (add32 (mv_size m) (mv_offset m)))"

definition subscript_mv :: "'a MapView \<Rightarrow> int \<Rightarrow> 'a Element" where
  "subscript_mv m i = Element (mv_keyReader m) (mv_valueReader m) (add32 i (mv_offset m))"

definition size_mv :: "'a MapView \<Rightarrow> nat" where
  "size_mv m = nat (mv_size m mod 2 ^ 64)"

section \<open>Predicates used in the statements\<close>

text \<open>
  A reader is \<open>ready\<close> when every memo slot of its tree is set and no Generic reader
  occurs in it: the state \<^verbatim>\<open>setChildrenMayHaveNulls()\<close> leaves behind when it returns.
\<close>

fun ready :: "'a VectorReader \<Rightarrow> bool"
  and readyAll :: "'a VectorReader list \<Rightarrow> bool"
where
  "ready (ScalarReader d) = True"
| "ready (MapReader d offsets lengths keyReader valReader k v) =
     (k \<noteq> None \<and> v \<noteq> None \<and> ready keyReader \<and> ready valReader)"
| "ready (ArrayReader d offsets lengths childReader v) = (v \<noteq> None \<and> ready childReader)"
| "ready (RowReader d childReaders) = readyAll childReaders"
| "ready (VariadicReader childReaders) = readyAll childReaders"
| "ready (GenericReader d) = False"
| "readyAll [] = True"
| "readyAll (r # rs) = (ready r \<and> readyAll rs)"

text \<open>
  A reader was \<open>neverSet\<close> when every memo slot of its tree is still empty: the state
  the constructors leave behind.
\<close>

fun neverSet :: "'a VectorReader \<Rightarrow> bool"
  and allNeverSet :: "'a VectorReader list \<Rightarrow> bool"
where
  "neverSet (ScalarReader d) = True"
| "neverSet (MapReader d offsets lengths keyReader valReader k v) =
     (k = None \<and> v = None \<and> neverSet keyReader \<and> neverSet valReader)"
| "neverSet (ArrayReader d offsets lengths childReader v) = (v = None \<and> neverSet childReader)"
| "neverSet (RowReader d childReaders) = allNeverSet childReaders"
| "neverSet (VariadicReader childReaders) = allNeverSet childReaders"
| "neverSet (GenericReader d) = True"
| "allNeverSet [] = True"
| "allNeverSet (r # rs) = (neverSet r \<and> allNeverSet rs)"

text \<open>
  The evaluation of \<^verbatim>\<open>containsNull(i)\<close> reaches a Map or an Array reader, the readers
  that hold a memo. A Row reader looks at its fields only when its own row is not
  null; the fields of a Row and the arguments of a Variadic pack are visited in
  order, and the visit goes on to the next one only when the one before reported no
  null.
\<close>

fun reachesMemo :: "'a VectorReader \<Rightarrow> int \<Rightarrow> bool"
  and anyReachesMemo :: "'a VectorReader list \<Rightarrow> int \<Rightarrow> bool"
where
  "reachesMemo (ScalarReader d) i = False"
| "reachesMemo (MapReader d offsets lengths keyReader valReader k v) i = True"
| "reachesMemo (ArrayReader d offsets lengths childReader v) i = True"
| "reachesMemo (RowReader d childReaders) i =
     (\<not> isNullAt d i \<and> anyReachesMemo childReaders (index d i))"
| "reachesMemo (VariadicReader childReaders) i = anyReachesMemo childReaders i"
| "reachesMemo (GenericReader d) i = False"
| "anyReachesMemo [] i = False"
| "anyReachesMemo (r # rs) i =
     (reachesMemo r i \<or> (containsNull r i = Inr False \<and> anyReachesMemo rs i))"

text \<open>
  The same for \<^verbatim>\<open>containsNull(start, end)\<close>: the loop over the rows reaches a memo at
  the first row that does, provided every row before it reported no null; the
  Variadic pack asks its arguments in order for the whole range.
\<close>

fun rangeReachesMemo :: "'a VectorReader \<Rightarrow> int \<Rightarrow> int \<Rightarrow> bool"
  and anyRangeReachesMemo :: "'a VectorReader list \<Rightarrow> int \<Rightarrow> int \<Rightarrow> bool"
where
  "rangeReachesMemo (VariadicReader childReaders) s e = anyRangeReachesMemo childReaders s e"
| "rangeReachesMemo (GenericReader d) s e = False"
| "rangeReachesMemo r s e =
     (\<exists>j \<in> {s ..< e}. reachesMemo r j \<and> (\<forall>j' \<in> {s ..< j}. containsNull r j' = Inr False))"
| "anyRangeReachesMemo [] s e = False"
| "anyRangeReachesMemo (r # rs) s e =
     (rangeReachesMemo r s e \<or> (containsNullRange r s e = Inr False \<and> anyRangeReachesMemo rs s e))"

text \<open>
  And for \<^verbatim>\<open>mayHaveNullsRecursive()\<close>: the Row reader asks its decoded source and no
  child; the Variadic pack asks its arguments in order until one answers true.
\<close>

fun flagReachesMemo :: "'a VectorReader \<Rightarrow> bool"
  and anyFlagReachesMemo :: "'a VectorReader list \<Rightarrow> bool"
where
  "flagReachesMemo (ScalarReader d) = False"
| "flagReachesMemo (MapReader d offsets lengths keyReader valReader k v) = True"
| "flagReachesMemo (ArrayReader d offsets lengths childReader v) = True"
| "flagReachesMemo (RowReader d childReaders) = False"
| "flagReachesMemo (VariadicReader childReaders) = anyFlagReachesMemo childReaders"
| "flagReachesMemo (GenericReader d) = False"
| "anyFlagReachesMemo [] = False"
| "anyFlagReachesMemo (r # rs) =
     (flagReachesMemo r \<or> (mayHaveNullsRecursive r = Inr False \<and> anyFlagReachesMemo rs))"

text \<open>Some position of the window \<open>[s, e)\<close> of reader \<open>r\<close> reports \<^verbatim>\<open>containsNull\<close>.\<close>

definition windowContainsNull :: "'a VectorReader \<Rightarrow> int \<Rightarrow> int \<Rightarrow> bool" where
  "windowContainsNull r s e = (\<exists>j. s \<le> j \<and> j < e \<and> containsNull r j = Inr True)"

text \<open>
  The flag \<^verbatim>\<open>mayHaveNullsRecursive()\<close> computes for a tree: the disjunction of the
  \<^verbatim>\<open>mayHaveNulls()\<close> flags of the decoded sources below a scalar, Map, Array or
  Variadic reader, and the decoded source's own answer for a Row reader.
\<close>

fun subtreeMayHaveNulls :: "'a VectorReader \<Rightarrow> bool"
  and anySubtreeMayHaveNulls :: "'a VectorReader list \<Rightarrow> bool"
where
  "subtreeMayHaveNulls (ScalarReader d) = mayHaveNulls d"
| "subtreeMayHaveNulls (MapReader d offsets lengths keyReader valReader k v) =
     (mayHaveNulls d \<or> subtreeMayHaveNulls keyReader \<or> subtreeMayHaveNulls valReader)"
| "subtreeMayHaveNulls (ArrayReader d offsets lengths childReader v) =
     (mayHaveNulls d \<or> subtreeMayHaveNulls childReader)"
| "subtreeMayHaveNulls (RowReader d childReaders) = decodedMayHaveNullsRecursive d"
| "subtreeMayHaveNulls (VariadicReader childReaders) = anySubtreeMayHaveNulls childReaders"
| "subtreeMayHaveNulls (GenericReader d) = mayHaveNulls d"
| "anySubtreeMayHaveNulls [] = False"
| "anySubtreeMayHaveNulls (r # rs) = (subtreeMayHaveNulls r \<or> anySubtreeMayHaveNulls rs)"

text \<open>
  The specification's reading of "row \<open>i\<close> holds a null": the reader's own row is null,
  or the corresponding row of some descendant is (for a Map or an Array, the rows of
  the window of row \<open>i\<close>; for a Row, the decoded index; for a Variadic pack, the same
  row of each argument). No memo is consulted.
\<close>

fun spec_rowHasNull :: "'a VectorReader \<Rightarrow> int \<Rightarrow> bool"
  and spec_anyRowHasNull :: "'a VectorReader list \<Rightarrow> int \<Rightarrow> bool"
where
  "spec_rowHasNull (ScalarReader d) i = isNullAt d i"
| "spec_rowHasNull (MapReader d offsets lengths keyReader valReader k v) i =
     (isNullAt d i
      \<or> (\<exists>j \<in> {offsets (index d i) ..< offsets (index d i) + lengths (index d i)}.
            spec_rowHasNull keyReader j \<or> spec_rowHasNull valReader j))"
| "spec_rowHasNull (ArrayReader d offsets lengths childReader v) i =
     (isNullAt d i
      \<or> (\<exists>j \<in> {offsets (index d i) ..< offsets (index d i) + lengths (index d i)}.
            spec_rowHasNull childReader j))"
| "spec_rowHasNull (RowReader d childReaders) i =
     (isNullAt d i \<or> spec_anyRowHasNull childReaders (index d i))"
| "spec_rowHasNull (VariadicReader childReaders) i = spec_anyRowHasNull childReaders i"
| "spec_rowHasNull (GenericReader d) i = isNullAt d i"
| "spec_anyRowHasNull [] i = False"
| "spec_anyRowHasNull (r # rs) i = (spec_rowHasNull r i \<or> spec_anyRowHasNull rs i)"

text \<open>
  The flags of the decoded sources are sound when a source that has a null row says
  that it may have nulls, and the source of a Row reader says so for its fields too.
\<close>

definition soundSource :: "'a DecodedVector \<Rightarrow> bool" where
  "soundSource d = (\<forall>i. isNullAt d i \<longrightarrow> mayHaveNulls d)"

fun soundFlags :: "'a VectorReader \<Rightarrow> bool"
  and allSoundFlags :: "'a VectorReader list \<Rightarrow> bool"
where
  "soundFlags (ScalarReader d) = soundSource d"
| "soundFlags (MapReader d offsets lengths keyReader valReader k v) =
     (soundSource d \<and> soundFlags keyReader \<and> soundFlags valReader)"
| "soundFlags (ArrayReader d offsets lengths childReader v) =
     (soundSource d \<and> soundFlags childReader)"
| "soundFlags (RowReader d childReaders) =
     ((\<forall>i. isNullAt d i \<longrightarrow> decodedMayHaveNullsRecursive d)
      \<and> (anySubtreeMayHaveNulls childReaders \<longrightarrow> decodedMayHaveNullsRecursive d)
      \<and> allSoundFlags childReaders)"
| "soundFlags (VariadicReader childReaders) = allSoundFlags childReaders"
| "soundFlags (GenericReader d) = soundSource d"
| "allSoundFlags [] = True"
| "allSoundFlags (r # rs) = (soundFlags r \<and> allSoundFlags rs)"

section \<open>Example columns\<close>

text \<open>
  The map column of the view tests: the rows \<open>[]\<close>, \<open>[(1,4), (3,3), (4,null)]\<close> and
  \<open>[(10,10), (4,null), (1,4), (10,4), (10,null)]\<close>, stored flat.
\<close>

definition testKeys :: "int DecodedVector" where
  "testKeys = \<lparr>isNullAt = (\<lambda>i. False), index = (\<lambda>i. i), mayHaveNulls = False,
     decodedMayHaveNullsRecursive = False,
     valueAt = (\<lambda>i. [1, 3, 4, 10, 4, 1, 10, 10] ! nat i)\<rparr>"

definition testValues :: "int DecodedVector" where
  "testValues = \<lparr>isNullAt = (\<lambda>i. i = 2 \<or> i = 4 \<or> i = 7), index = (\<lambda>i. i),
     mayHaveNulls = True, decodedMayHaveNullsRecursive = True,
     valueAt = (\<lambda>i. [4, 3, 0, 10, 0, 4, 4, 0] ! nat i)\<rparr>"

definition testMaps :: "int DecodedVector" where
  "testMaps = \<lparr>isNullAt = (\<lambda>i. False), index = (\<lambda>i. i), mayHaveNulls = False,
     decodedMayHaveNullsRecursive = True, valueAt = (\<lambda>i. 0)\<rparr>"

definition testOffsets :: "int \<Rightarrow> int" where
  "testOffsets i = [0, 0, 3] ! nat i"

definition testLengths :: "int \<Rightarrow> int" where
  "testLengths i = [0, 3, 5] ! nat i"

definition testMapReader :: "int VectorReader" where
  "testMapReader = MapReader testMaps testOffsets testLengths
     (ScalarReader testKeys) (ScalarReader testValues) None None"

text \<open>
  An array column with rows of length 0, 3 and 5 whose elements are null unless their
  position in the row is a multiple of 5.
\<close>

definition testArrayRows :: "int DecodedVector" where
  "testArrayRows = \<lparr>isNullAt = (\<lambda>i. False), index = (\<lambda>i. i), mayHaveNulls = False,
     decodedMayHaveNullsRecursive = True, valueAt = (\<lambda>i. 0)\<rparr>"

definition testElements :: "int DecodedVector" where
  "testElements =
     \<lparr>isNullAt = (\<lambda>i. [False, True, True, False, True, True, True, True] ! nat i),
      index = (\<lambda>i. i), mayHaveNulls = True, decodedMayHaveNullsRecursive = True,
      valueAt = (\<lambda>i. [0, 0, 0, 0, 0, 0, 0, 0] ! nat i)\<rparr>"

definition testArrayReader :: "int VectorReader" where
  "testArrayReader =
     ArrayReader testArrayRows testOffsets testLengths (ScalarReader testElements) None"

text \<open>
  An array column whose window ends beyond the 32-bit range: offset 2147483647 and
  length 1, over elements that are all null. The sum wraps to -2147483648, so the loop
  over the window runs from 2147483647 up to -2147483648 and visits nothing.
\<close>

definition allNullElements :: "int DecodedVector" where
  "allNullElements = \<lparr>isNullAt = (\<lambda>i. True), index = (\<lambda>i. i), mayHaveNulls = True,
     decodedMayHaveNullsRecursive = True, valueAt = (\<lambda>i. 0)\<rparr>"

definition overflowArrayReader :: "int VectorReader" where
  "overflowArrayReader =
     ArrayReader testArrayRows (\<lambda>i. 2147483647) (\<lambda>i. 1) (ScalarReader allNullElements) None"

text \<open>
  A Row column and a Variadic pack over one scalar column, with no null anywhere;
  and a Row column (its row 0 is null, the others are not) and a Variadic pack over
  the array column above.
\<close>

definition rowOfScalar :: "int VectorReader" where
  "rowOfScalar = RowReader testMaps [ScalarReader testKeys]"

definition variadicOfScalar :: "int VectorReader" where
  "variadicOfScalar = VariadicReader [ScalarReader testKeys]"

definition testRows :: "int DecodedVector" where
  "testRows = \<lparr>isNullAt = (\<lambda>i. i = 0), index = (\<lambda>i. i), mayHaveNulls = True,
     decodedMayHaveNullsRecursive = True, valueAt = (\<lambda>i. 0)\<rparr>"

definition rowOverArray :: "int VectorReader" where
  "rowOverArray = RowReader testRows [testArrayReader]"

definition variadicOverArray :: "int VectorReader" where
  "variadicOverArray = VariadicReader [testArrayReader]"

text \<open>
  A constant-encoded array column: the base vector holds the arrays \<open>[1, null]\<close> and
  \<open>[2]\<close>, and every logical row is decoded to the physical row 1, the array \<open>[2]\<close>.
\<close>

definition constantArrayRows :: "int DecodedVector" where
  "constantArrayRows = \<lparr>isNullAt = (\<lambda>i. False), index = (\<lambda>i. 1), mayHaveNulls = False,
     decodedMayHaveNullsRecursive = True, valueAt = (\<lambda>i. 0)\<rparr>"

definition constantArrayElements :: "int DecodedVector" where
  "constantArrayElements = \<lparr>isNullAt = (\<lambda>i. i = 1), index = (\<lambda>i. i), mayHaveNulls = True,
     decodedMayHaveNullsRecursive = True, valueAt = (\<lambda>i. [1, 0, 2] ! nat i)\<rparr>"

definition constantArrayOffsets :: "int \<Rightarrow> int" where
  "constantArrayOffsets i = [0, 2] ! nat i"

definition constantArrayLengths :: "int \<Rightarrow> int" where
  "constantArrayLengths i = [2, 1] ! nat i"

definition constantArrayReader :: "int VectorReader" where
  "constantArrayReader =
     ArrayReader constantArrayRows constantArrayOffsets constantArrayLengths
       (ScalarReader constantArrayElements) None"

section \<open>Auxiliary facts\<close>

lemma wrap32_id: "isInt32 x \<Longrightarrow> wrap32 x = x"
  by (simp add: isInt32_def wrap32_def)

lemma add32_id: "isInt32 (a + b) \<Longrightarrow> add32 a b = a + b"
  by (simp add: add32_def wrap32_id)

lemma orElse_Inr [simp]: "orElse (Inr a) (Inr b) = Inr (a \<or> b)"
  by (cases a) (simp_all add: orElse_def)

lemma orElse_Inl_iff:
  "(orElse a b = Inl x) = (a = Inl x \<or> (a = Inr False \<and> b = Inl x))"
  by (auto simp: orElse_def split: sum.splits bool.splits)

text \<open>
  The loop fails with the error of the first row that fails, provided every row before
  it reported no null.
\<close>

lemma anyInRange_Inl_iff:
  "(anyInRange f s e = Inl x)
     = (\<exists>j \<in> {s ..< e}. f j = Inl x \<and> (\<forall>j' \<in> {s ..< j}. f j' = Inr False))"
proof (induction f s e rule: anyInRange.induct)
  case (1 f s e)
  show ?case
  proof (cases "s < e")
    case False
    then show ?thesis by (subst anyInRange.simps) simp
  next
    case True
    show ?thesis
    proof (cases "f s")
      case (Inl y)
      have "(\<exists>j \<in> {s ..< e}. f j = Inl x \<and> (\<forall>j' \<in> {s ..< j}. f j' = Inr False)) = (y = x)"
      proof
        assume "\<exists>j \<in> {s ..< e}. f j = Inl x \<and> (\<forall>j' \<in> {s ..< j}. f j' = Inr False)"
        then obtain j where j: "s \<le> j" "j < e" "f j = Inl x"
          "\<forall>j' \<in> {s ..< j}. f j' = Inr False" by auto
        have "j = s"
        proof (rule ccontr)
          assume "j \<noteq> s"
          with j have "s \<in> {s ..< j}" by simp
          with j(4) have "f s = Inr False" by blast
          with Inl show False by simp
        qed
        with j Inl show "y = x" by simp
      next
        assume "y = x"
        with Inl True have "s \<in> {s ..< e} \<and> f s = Inl x \<and> (\<forall>j' \<in> {s ..< s}. f j' = Inr False)"
          by simp
        then show "\<exists>j \<in> {s ..< e}. f j = Inl x \<and> (\<forall>j' \<in> {s ..< j}. f j' = Inr False)"
          by blast
      qed
      with Inl True show ?thesis by (subst anyInRange.simps) auto
    next
      case (Inr b)
      show ?thesis
      proof (cases b)
        case True
        have "\<not> (\<exists>j \<in> {s ..< e}. f j = Inl x \<and> (\<forall>j' \<in> {s ..< j}. f j' = Inr False))"
        proof
          assume "\<exists>j \<in> {s ..< e}. f j = Inl x \<and> (\<forall>j' \<in> {s ..< j}. f j' = Inr False)"
          then obtain j where j: "s \<le> j" "j < e" "f j = Inl x"
            "\<forall>j' \<in> {s ..< j}. f j' = Inr False" by auto
          show False
          proof (cases "j = s")
            case True
            with j Inr show False by simp
          next
            case False
            with j have "s \<in> {s ..< j}" by simp
            with j(4) have "f s = Inr False" by blast
            with Inr \<open>b\<close> show False by simp
          qed
        qed
        with Inr True \<open>s < e\<close> show ?thesis by (subst anyInRange.simps) simp
      next
        case False
        have ih: "(anyInRange f (s + 1) e = Inl x)
            = (\<exists>j \<in> {s + 1 ..< e}. f j = Inl x \<and> (\<forall>j' \<in> {s + 1 ..< j}. f j' = Inr False))"
          using "1.IH" \<open>s < e\<close> Inr False by simp
        have fs: "f s = Inr False" using Inr False by simp
        have "(\<exists>j \<in> {s + 1 ..< e}. f j = Inl x \<and> (\<forall>j' \<in> {s + 1 ..< j}. f j' = Inr False))
            = (\<exists>j \<in> {s ..< e}. f j = Inl x \<and> (\<forall>j' \<in> {s ..< j}. f j' = Inr False))"
        proof
          assume "\<exists>j \<in> {s + 1 ..< e}. f j = Inl x \<and> (\<forall>j' \<in> {s + 1 ..< j}. f j' = Inr False)"
          then obtain j where j: "s + 1 \<le> j" "j < e" "f j = Inl x"
            "\<forall>j' \<in> {s + 1 ..< j}. f j' = Inr False" by auto
          have "\<forall>j' \<in> {s ..< j}. f j' = Inr False"
          proof
            fix j' assume "j' \<in> {s ..< j}"
            then have "j' = s \<or> j' \<in> {s + 1 ..< j}" by auto
            with fs j(4) show "f j' = Inr False" by blast
          qed
          moreover from j have "j \<in> {s ..< e}" by simp
          ultimately show "\<exists>j \<in> {s ..< e}. f j = Inl x \<and> (\<forall>j' \<in> {s ..< j}. f j' = Inr False)"
            using j(3) by blast
        next
          assume "\<exists>j \<in> {s ..< e}. f j = Inl x \<and> (\<forall>j' \<in> {s ..< j}. f j' = Inr False)"
          then obtain j where j: "s \<le> j" "j < e" "f j = Inl x"
            "\<forall>j' \<in> {s ..< j}. f j' = Inr False" by auto
          from j(3) fs have "j \<noteq> s" by auto
          with j have "j \<in> {s + 1 ..< e}" by simp
          moreover have "\<forall>j' \<in> {s + 1 ..< j}. f j' = Inr False"
            using j(4) by simp
          ultimately show "\<exists>j \<in> {s + 1 ..< e}. f j = Inl x \<and> (\<forall>j' \<in> {s + 1 ..< j}. f j' = Inr False)"
            using j(3) by blast
        qed
        with ih fs \<open>s < e\<close> show ?thesis by (subst anyInRange.simps) simp
      qed
    qed
  qed
qed

lemma allNeverSet_iff: "allNeverSet rs = (\<forall>c \<in> set rs. neverSet c)"
  by (induction rs) auto

lemma anyChildContainsNull_reaches:
  "(\<And>c. c \<in> set rs \<Longrightarrow> (containsNull c i = Inl DCheckFailed) = reachesMemo c i) \<Longrightarrow>
   (anyChildContainsNull rs i = Inl DCheckFailed) = anyReachesMemo rs i"
  by (induction rs) (simp_all add: orElse_Inl_iff)

lemma anyChildContainsNullRange_reaches:
  "(\<And>c. c \<in> set rs \<Longrightarrow> (containsNullRange c s e = Inl DCheckFailed) = rangeReachesMemo c s e) \<Longrightarrow>
   (anyChildContainsNullRange rs s e = Inl DCheckFailed) = anyRangeReachesMemo rs s e"
  by (induction rs) (simp_all add: orElse_Inl_iff)

lemma anyChildMayHaveNullsRecursive_reaches:
  "(\<And>c. c \<in> set rs \<Longrightarrow> (mayHaveNullsRecursive c = Inl DCheckFailed) = flagReachesMemo c) \<Longrightarrow>
   (anyChildMayHaveNullsRecursive rs = Inl DCheckFailed) = anyFlagReachesMemo rs"
  by (induction rs) (simp_all add: orElse_Inl_iff)

text \<open>
  On a reader whose memo was never set, a query fails the assertion exactly when its
  evaluation reaches a Map or an Array reader.
\<close>

lemma neverSet_reaches:
  "neverSet r \<Longrightarrow>
     (\<forall>i. (containsNull r i = Inl DCheckFailed) = reachesMemo r i)
   \<and> (\<forall>s e. (containsNullRange r s e = Inl DCheckFailed) = rangeReachesMemo r s e)
   \<and> (mayHaveNullsRecursive r = Inl DCheckFailed) = flagReachesMemo r"
proof (induction r)
  case (ScalarReader d)
  show ?case by (simp add: anyInRange_Inl_iff)
next
  case (MapReader d offs lens k v km vm)
  then show ?case by (simp add: anyInRange_Inl_iff)
next
  case (ArrayReader d offs lens c vm)
  then show ?case by (simp add: anyInRange_Inl_iff)
next
  case (RowReader d rs)
  then have ch: "\<And>c i. c \<in> set rs \<Longrightarrow> (containsNull c i = Inl DCheckFailed) = reachesMemo c i"
    by (simp add: allNeverSet_iff)
  have one: "\<And>i. (containsNull (RowReader d rs) i = Inl DCheckFailed) = reachesMemo (RowReader d rs) i"
    by (simp add: anyChildContainsNull_reaches[of rs] ch)
  have "\<And>s e. (containsNullRange (RowReader d rs) s e = Inl DCheckFailed)
      = rangeReachesMemo (RowReader d rs) s e"
    unfolding containsNullRange.simps rangeReachesMemo.simps anyInRange_Inl_iff one by simp
  with one show ?case by simp
next
  case (VariadicReader rs)
  then have ch: "\<And>c i. c \<in> set rs \<Longrightarrow> (containsNull c i = Inl DCheckFailed) = reachesMemo c i"
    and chr: "\<And>c s e. c \<in> set rs \<Longrightarrow>
        (containsNullRange c s e = Inl DCheckFailed) = rangeReachesMemo c s e"
    and chf: "\<And>c. c \<in> set rs \<Longrightarrow> (mayHaveNullsRecursive c = Inl DCheckFailed) = flagReachesMemo c"
    by (simp_all add: allNeverSet_iff)
  show ?case
    by (simp add: anyChildContainsNull_reaches[of rs] ch
        anyChildContainsNullRange_reaches[of rs] chr
        anyChildMayHaveNullsRecursive_reaches[of rs] chf)
next
  case (GenericReader d)
  show ?case by simp
qed

lemma anyInRange_total:
  "(\<And>j. s \<le> j \<Longrightarrow> j < e \<Longrightarrow> \<exists>b. f j = Inr b) \<Longrightarrow>
   anyInRange f s e = Inr (\<exists>j. s \<le> j \<and> j < e \<and> f j = Inr True)"
proof (induction f s e rule: anyInRange.induct)
  case (1 f s e)
  show ?case
  proof (cases "s < e")
    case False
    then show ?thesis by (subst anyInRange.simps) auto
  next
    case True
    from "1.prems"[of s] True obtain b where b: "f s = Inr b" by auto
    show ?thesis
    proof (cases b)
      case True
      with b \<open>s < e\<close> show ?thesis
        by (subst anyInRange.simps) auto
    next
      case False
      have ih: "anyInRange f (s + 1) e = Inr (\<exists>j. s + 1 \<le> j \<and> j < e \<and> f j = Inr True)"
        using "1.IH" \<open>s < e\<close> b False "1.prems" by simp
      have "(\<exists>j. s + 1 \<le> j \<and> j < e \<and> f j = Inr True) = (\<exists>j. s \<le> j \<and> j < e \<and> f j = Inr True)"
      proof
        assume "\<exists>j. s + 1 \<le> j \<and> j < e \<and> f j = Inr True"
        then obtain j where j: "s + 1 \<le> j" "j < e" "f j = Inr True" by blast
        then have "s \<le> j" by linarith
        with j show "\<exists>j. s \<le> j \<and> j < e \<and> f j = Inr True" by blast
      next
        assume "\<exists>j. s \<le> j \<and> j < e \<and> f j = Inr True"
        then obtain j where j: "s \<le> j" "j < e" "f j = Inr True" by blast
        with b False have "j \<noteq> s" by auto
        with j have "s + 1 \<le> j" by linarith
        with j show "\<exists>j. s + 1 \<le> j \<and> j < e \<and> f j = Inr True" by blast
      qed
      with ih b False \<open>s < e\<close> show ?thesis
        by (subst anyInRange.simps) simp
    qed
  qed
qed

lemma readyAll_iff: "readyAll rs = (\<forall>c \<in> set rs. ready c)"
  by (induction rs) auto

lemma anyChildContainsNull_total:
  "(\<And>c. c \<in> set rs \<Longrightarrow> \<exists>b. containsNull c i = Inr b) \<Longrightarrow>
   anyChildContainsNull rs i = Inr (\<exists>c \<in> set rs. containsNull c i = Inr True)"
proof (induction rs)
  case Nil
  show ?case by simp
next
  case (Cons r rs)
  from Cons.prems[of r] obtain b where b: "containsNull r i = Inr b" by auto
  have "anyChildContainsNull rs i = Inr (\<exists>c \<in> set rs. containsNull c i = Inr True)"
    using Cons.IH Cons.prems by simp
  with b show ?case by auto
qed

lemma anyChildContainsNullRange_total:
  "(\<And>c. c \<in> set rs \<Longrightarrow> \<exists>b. containsNullRange c s e = Inr b) \<Longrightarrow>
   anyChildContainsNullRange rs s e = Inr (\<exists>c \<in> set rs. containsNullRange c s e = Inr True)"
proof (induction rs)
  case Nil
  show ?case by simp
next
  case (Cons r rs)
  from Cons.prems[of r] obtain b where b: "containsNullRange r s e = Inr b" by auto
  have "anyChildContainsNullRange rs s e = Inr (\<exists>c \<in> set rs. containsNullRange c s e = Inr True)"
    using Cons.IH Cons.prems by simp
  with b show ?case by auto
qed

text \<open>
  On a ready reader no query fails, and the ranged query is the disjunction of the
  single-row queries over the range.
\<close>

lemma ready_total:
  "ready r \<Longrightarrow>
     (\<forall>i. \<exists>b. containsNull r i = Inr b) \<and>
     (\<forall>s e. containsNullRange r s e = Inr (windowContainsNull r s e))"
proof (induction r)
  case (ScalarReader d)
  show ?case
    using anyInRange_total[of _ _ "containsNull (ScalarReader d)"]
    by (simp add: windowContainsNull_def)
next
  case (MapReader d offs lens k v km vm)
  then have tot: "\<And>i. \<exists>b. containsNull (MapReader d offs lens k v km vm) i = Inr b"
    by (auto simp: Let_def)
  then show ?case
    using anyInRange_total[of _ _ "containsNull (MapReader d offs lens k v km vm)"]
    by (simp add: windowContainsNull_def)
next
  case (ArrayReader d offs lens c vm)
  then have tot: "\<And>i. \<exists>b. containsNull (ArrayReader d offs lens c vm) i = Inr b"
    by (auto simp: Let_def)
  then show ?case
    using anyInRange_total[of _ _ "containsNull (ArrayReader d offs lens c vm)"]
    by (simp add: windowContainsNull_def)
next
  case (RowReader d rs)
  then have ch: "\<And>c i. c \<in> set rs \<Longrightarrow> \<exists>b. containsNull c i = Inr b"
    by (simp add: readyAll_iff)
  have any: "\<And>i. anyChildContainsNull rs i = Inr (\<exists>c \<in> set rs. containsNull c i = Inr True)"
    by (rule anyChildContainsNull_total) (rule ch)
  have tot: "\<And>i. \<exists>b. containsNull (RowReader d rs) i = Inr b"
    by (auto simp: any)
  then show ?case
    using anyInRange_total[of _ _ "containsNull (RowReader d rs)"]
    by (simp add: windowContainsNull_def)
next
  case (VariadicReader rs)
  then have ch: "\<And>c i. c \<in> set rs \<Longrightarrow> \<exists>b. containsNull c i = Inr b"
    and chr: "\<And>c s e. c \<in> set rs \<Longrightarrow> containsNullRange c s e = Inr (windowContainsNull c s e)"
    by (simp_all add: readyAll_iff)
  have one: "\<And>i. containsNull (VariadicReader rs) i = Inr (\<exists>c \<in> set rs. containsNull c i = Inr True)"
    by (simp add: anyChildContainsNull_total[of rs] ch)
  have rng: "\<And>s e. containsNullRange (VariadicReader rs) s e
      = Inr (\<exists>c \<in> set rs. containsNullRange c s e = Inr True)"
    by (simp add: anyChildContainsNullRange_total[of rs] chr)
  have "\<And>s e. (\<exists>c \<in> set rs. containsNullRange c s e = Inr True)
      = windowContainsNull (VariadicReader rs) s e"
    unfolding windowContainsNull_def one using chr by (auto simp: windowContainsNull_def)
  with one rng show ?case by simp
next
  case (GenericReader d)
  then show ?case by simp
qed

text \<open>A call of \<^verbatim>\<open>setChildrenMayHaveNulls()\<close> that returns leaves a ready reader.\<close>

lemma set_ready:
  "setChildrenMayHaveNulls (r::'a VectorReader) = Inr r' \<Longrightarrow> ready r'"
  "setAllChildrenMayHaveNulls (rs::'a VectorReader list) = Inr rs' \<Longrightarrow> readyAll rs'"
proof (induction r and rs arbitrary: r' and rs'
    rule: setChildrenMayHaveNulls_setAllChildrenMayHaveNulls.induct)
  case (1 d)
  then show ?case by auto
next
  case (2 d offsets lengths keyReader valReader keysMayHaveNulls valuesMayHaveNulls)
  then show ?case by (auto split: sum.splits)
next
  case (3 d offsets lengths childReader valuesMayHaveNulls)
  then show ?case by (auto split: sum.splits)
next
  case (4 d childReaders)
  then show ?case by (auto split: sum.splits)
next
  case (5 childReaders)
  then show ?case by (auto split: sum.splits)
next
  case (6 d)
  then show ?case by simp
next
  case 7
  then show ?case by auto
next
  case (8 r rs)
  then show ?case by (auto split: sum.splits)
qed

lemma set_mayHaveNullsRecursive:
  "setChildrenMayHaveNulls (r::'a VectorReader) = Inr r' \<Longrightarrow>
     mayHaveNullsRecursive r' = Inr (subtreeMayHaveNulls r)"
  "setAllChildrenMayHaveNulls (rs::'a VectorReader list) = Inr rs' \<Longrightarrow>
     anyChildMayHaveNullsRecursive rs' = Inr (anySubtreeMayHaveNulls rs)"
proof (induction r and rs arbitrary: r' and rs'
    rule: setChildrenMayHaveNulls_setAllChildrenMayHaveNulls.induct)
  case (1 d)
  then show ?case by auto
next
  case (2 d offsets lengths keyReader valReader keysMayHaveNulls valuesMayHaveNulls)
  then show ?case by (auto split: sum.splits)
next
  case (3 d offsets lengths childReader valuesMayHaveNulls)
  then show ?case by (auto split: sum.splits)
next
  case (4 d childReaders)
  then show ?case by (auto split: sum.splits)
next
  case (5 childReaders)
  then show ?case by (auto split: sum.splits)
next
  case (6 d)
  then show ?case by simp
next
  case 7
  then show ?case by auto
next
  case (8 r rs)
  then show ?case by (auto split: sum.splits)
qed

lemma sound_rowHasNull:
  "soundFlags (r::'a VectorReader) \<Longrightarrow> spec_rowHasNull r i \<Longrightarrow> subtreeMayHaveNulls r"
  "allSoundFlags (rs::'a VectorReader list) \<Longrightarrow> spec_anyRowHasNull rs i2 \<Longrightarrow>
     anySubtreeMayHaveNulls rs"
proof (induction r i and rs i2 rule: spec_rowHasNull_spec_anyRowHasNull.induct)
  case (1 d i)
  then show ?case by (auto simp: soundSource_def)
next
  case (2 d offsets lengths keyReader valReader k v i)
  then show ?case by (auto simp: soundSource_def; blast)
next
  case (3 d offsets lengths childReader v i)
  then show ?case by (auto simp: soundSource_def; blast)
next
  case (4 d childReaders i)
  then show ?case by auto
next
  case (5 childReaders i)
  then show ?case by auto
next
  case (6 d i)
  then show ?case by (auto simp: soundSource_def)
next
  case (7 i)
  then show ?case by simp
next
  case (8 r rs i)
  then show ?case by auto
qed


lemma rangeLoop_steps:
  "rangeLoop (IndexBasedIterator \<lparr>acc_reader = r, acc_index = i\<rparr>)
             (IndexBasedIterator \<lparr>acc_reader = r', acc_index = i + int n\<rparr>) visited
   = Some (visited @ map (\<lambda>k. \<lparr>acc_reader = r, acc_index = i + int k\<rparr>) [0..<n])"
proof (induction n arbitrary: i visited)
  case 0
  show ?case
    by (subst rangeLoop.simps) (simp add: neq_iter_def index_acc_def)
next
  case (Suc n)
  have e: "i + int (Suc n) = (i + 1) + int n" by simp
  show ?case
    apply (subst rangeLoop.simps)
    apply (simp only: e)
    apply (simp add: neq_iter_def index_acc_def preincrement_iter_def incrementIndex_acc_def
        deref_iter_def Suc.IH del: upt_Suc)
    apply (simp add: map_upt_Suc add.assoc del: upt_Suc)
    done
qed

lemma iteratorLoop_steps:
  "av_reader v = r' \<Longrightarrow> add32 (av_offset v) (av_size v) = i + int n \<Longrightarrow>
   iteratorLoop v (IndexBasedIterator \<lparr>acc_reader = r, acc_index = i\<rparr>) visited
   = Some (visited @ map (\<lambda>k. \<lparr>acc_reader = r, acc_index = i + int k\<rparr>) [0..<n])"
proof (induction n arbitrary: i visited)
  case 0
  then show ?case
    by (subst iteratorLoop.simps) (simp add: neq_iter_def index_acc_def end_av_def)
next
  case (Suc n)
  have e: "add32 (av_offset v) (av_size v) = (i + 1) + int n" using Suc.prems by simp
  show ?case
    apply (subst iteratorLoop.simps)
    apply (simp add: neq_iter_def index_acc_def preincrement_iter_def incrementIndex_acc_def
        deref_iter_def end_av_def Suc.prems Suc.IH[OF Suc.prems(1) e] del: upt_Suc)
    apply (simp add: map_upt_Suc add.assoc del: upt_Suc)
    done
qed

lemma indexedLoop_steps:
  "j + int n = int (size_av v) \<Longrightarrow>
   indexedLoop v j visited = visited @ map (\<lambda>k. subscript_av v (j + int k)) [0..<n]"
proof (induction n arbitrary: j visited)
  case 0
  then show ?case
    by (subst indexedLoop.simps) simp
next
  case (Suc n)
  have e: "(j + 1) + int n = int (size_av v)" using Suc.prems by simp
  have lt: "j < int (size_av v)" using Suc.prems by simp
  show ?case
    apply (subst indexedLoop.simps)
    apply (simp add: lt Suc.IH[OF e] del: upt_Suc)
    apply (simp add: map_upt_Suc add.assoc del: upt_Suc)
    done
qed

section \<open>The claims\<close>

subsection \<open>C1: queries before the setup phase\<close>

text \<open>
  C1 as stated does not hold: it promises a failed assertion for every nested reader
  whose memo was never set. The Row and the Variadic reader keep no memo and assert
  nothing themselves. On the Row column \<open>rowOfScalar\<close> and on the Variadic pack
  \<open>variadicOfScalar\<close>, fresh from their constructors, \<^verbatim>\<open>containsNull(0)\<close>,
  \<^verbatim>\<open>containsNull(0, 1)\<close> and \<^verbatim>\<open>mayHaveNullsRecursive()\<close> all return a value. On the Row
  column \<open>rowOverArray\<close>, whose field is an Array reader with an unset memo,
  \<^verbatim>\<open>containsNull(0)\<close> returns true because row 0 is null, before any field is asked,
  and \<^verbatim>\<open>mayHaveNullsRecursive()\<close> returns the flag of the decoded source.
\<close>

theorem row_and_variadic_readers_return:
  "neverSet rowOfScalar
   \<and> containsNull rowOfScalar 0 = Inr False
   \<and> containsNullRange rowOfScalar 0 1 = Inr False
   \<and> mayHaveNullsRecursive rowOfScalar = Inr True
   \<and> neverSet variadicOfScalar
   \<and> containsNull variadicOfScalar 0 = Inr False
   \<and> containsNullRange variadicOfScalar 0 1 = Inr False
   \<and> mayHaveNullsRecursive variadicOfScalar = Inr False
   \<and> neverSet rowOverArray
   \<and> containsNull rowOverArray 0 = Inr True
   \<and> containsNullRange rowOverArray 0 1 = Inr True
   \<and> mayHaveNullsRecursive rowOverArray = Inr True"
  by (simp add: rowOfScalar_def variadicOfScalar_def rowOverArray_def testArrayReader_def
      testMaps_def testKeys_def testRows_def anyInRange.simps)

text \<open>
  C1, amended: on a reader whose memo was never set, each of the three queries fails
  the assertion exactly when its evaluation reaches a Map or an Array reader. That is
  always so for a Map or an Array reader itself (for \<^verbatim>\<open>containsNull(start, end)\<close>: when
  the range is not empty; an empty range returns false without a look at the memo).
  For \<^verbatim>\<open>containsNull(index)\<close> of a Row reader it is so when the row is not null and,
  going through the fields in order, a field reaches a memo before any field reports
  a null; for a Variadic pack likewise, over its arguments; the ranged query follows
  the rows (the arguments, for a Variadic pack) in order in the same way.
  \<^verbatim>\<open>mayHaveNullsRecursive()\<close> of a Row reader never fails; that of a Variadic pack fails
  when an argument does before any argument answers true.
\<close>

theorem never_set_fails_exactly_at_memo:
  assumes "neverSet r"
  shows "(containsNull r i = Inl DCheckFailed) = reachesMemo r i
   \<and> (containsNullRange r s e = Inl DCheckFailed) = rangeReachesMemo r s e
   \<and> (mayHaveNullsRecursive r = Inl DCheckFailed) = flagReachesMemo r
   \<and> containsNull (MapReader d offsets lengths keyReader valReader None None) i = Inl DCheckFailed
   \<and> mayHaveNullsRecursive (MapReader d offsets lengths keyReader valReader None None)
       = Inl DCheckFailed
   \<and> containsNullRange (MapReader d offsets lengths keyReader valReader None None) s e
       = (if s < e then Inl DCheckFailed else Inr False)
   \<and> containsNull (ArrayReader d offsets lengths childReader None) i = Inl DCheckFailed
   \<and> mayHaveNullsRecursive (ArrayReader d offsets lengths childReader None) = Inl DCheckFailed
   \<and> containsNullRange (ArrayReader d offsets lengths childReader None) s e
       = (if s < e then Inl DCheckFailed else Inr False)"
  using neverSet_reaches[OF assms] by (simp add: anyInRange.simps)

text \<open>
  Before the setup phase: the map and the array column fail the assertion, except on
  an empty range; the Row column over the array column fails it on row 1, which is
  not null, and the Variadic pack over the array column fails it on every query.
\<close>

theorem never_set_fails_exactly_at_memo_witness:
  "neverSet rowOverArray
   \<and> containsNull rowOverArray 1 = Inl DCheckFailed
   \<and> containsNullRange rowOverArray 1 2 = Inl DCheckFailed
   \<and> neverSet variadicOverArray
   \<and> containsNull variadicOverArray 0 = Inl DCheckFailed
   \<and> containsNullRange variadicOverArray 0 1 = Inl DCheckFailed
   \<and> mayHaveNullsRecursive variadicOverArray = Inl DCheckFailed
   \<and> containsNull testMapReader 1 = Inl DCheckFailed
   \<and> mayHaveNullsRecursive testMapReader = Inl DCheckFailed
   \<and> containsNullRange testMapReader 1 1 = Inr False
   \<and> containsNull testArrayReader 1 = Inl DCheckFailed
   \<and> mayHaveNullsRecursive testArrayReader = Inl DCheckFailed
   \<and> containsNullRange testArrayReader 0 3 = Inl DCheckFailed"
proof -
  have nr: "neverSet rowOverArray"
    by (simp add: rowOverArray_def testArrayReader_def)
  have nv: "neverSet variadicOverArray"
    by (simp add: variadicOverArray_def testArrayReader_def)
  have r1: "reachesMemo rowOverArray 1"
    by (simp add: rowOverArray_def testArrayReader_def testRows_def)
  have "(1::int) \<in> {1 ..< 2}" by simp
  then have r2: "rangeReachesMemo rowOverArray 1 2"
    using r1 unfolding rowOverArray_def rangeReachesMemo.simps by force
  have v1: "reachesMemo variadicOverArray 0"
    by (simp add: variadicOverArray_def testArrayReader_def)
  have "(0::int) \<in> {0 ..< 1}" by simp
  then have "rangeReachesMemo testArrayReader 0 1"
    unfolding testArrayReader_def rangeReachesMemo.simps reachesMemo.simps by force
  then have v2: "rangeReachesMemo variadicOverArray 0 1"
    by (simp add: variadicOverArray_def)
  have v3: "flagReachesMemo variadicOverArray"
    by (simp add: variadicOverArray_def testArrayReader_def)
  from never_set_fails_exactly_at_memo[OF nr, where i = 1 and s = 1 and e = 2
          and d = testMaps and offsets = testOffsets and lengths = testLengths
          and keyReader = "ScalarReader testKeys" and valReader = "ScalarReader testValues"
          and childReader = "ScalarReader testElements"] r1 r2
  have a: "containsNull rowOverArray 1 = Inl DCheckFailed"
    and b: "containsNullRange rowOverArray 1 2 = Inl DCheckFailed"
    by simp_all
  from never_set_fails_exactly_at_memo[OF nv, where i = 0 and s = 0 and e = 1
          and d = testMaps and offsets = testOffsets and lengths = testLengths
          and keyReader = "ScalarReader testKeys" and valReader = "ScalarReader testValues"
          and childReader = "ScalarReader testElements"] v1 v2 v3
  have c: "containsNull variadicOverArray 0 = Inl DCheckFailed"
    and d: "containsNullRange variadicOverArray 0 1 = Inl DCheckFailed"
    and e: "mayHaveNullsRecursive variadicOverArray = Inl DCheckFailed"
    by simp_all
  from never_set_fails_exactly_at_memo[OF nr, where d = testMaps and offsets = testOffsets
          and lengths = testLengths and keyReader = "ScalarReader testKeys"
          and valReader = "ScalarReader testValues" and i = 1 and s = 1 and e = 1
          and childReader = "ScalarReader testElements"]
  have m: "containsNull testMapReader 1 = Inl DCheckFailed"
    "mayHaveNullsRecursive testMapReader = Inl DCheckFailed"
    "containsNullRange testMapReader 1 1 = Inr False"
    by (simp_all add: testMapReader_def)
  from never_set_fails_exactly_at_memo[OF nr, where d = testArrayRows and offsets = testOffsets
          and lengths = testLengths and childReader = "ScalarReader testElements"
          and keyReader = "ScalarReader testKeys" and valReader = "ScalarReader testValues"
          and i = 1 and s = 0 and e = 3]
  have ar: "containsNull testArrayReader 1 = Inl DCheckFailed"
    "mayHaveNullsRecursive testArrayReader = Inl DCheckFailed"
    "containsNullRange testArrayReader 0 3 = Inl DCheckFailed"
    by (simp_all add: testArrayReader_def)
  show ?thesis using nr nv a b c d e m ar by simp
qed

subsection \<open>C2: the Map reader's null check\<close>

text \<open>
  C2: once \<^verbatim>\<open>setChildrenMayHaveNulls()\<close> has returned on a Map reader, both memo slots
  hold the children's \<^verbatim>\<open>mayHaveNullsRecursive()\<close>, and for every row \<open>i\<close>
  \<^verbatim>\<open>containsNull(i)\<close> returns true if and only if the map row is null at \<open>i\<close>, or the
  key flag is set and some key of the window reports \<^verbatim>\<open>containsNull\<close>, or the value
  flag is set and some value of that window does. The window starts at
  \<open>offsets[index(i)]\<close> and ends before the 32-bit sum of \<open>offsets[index(i)]\<close> and
  \<open>lengths[index(i)]\<close>; where the sum stays in the 32-bit range this is the window
  \<open>[offsets[index(i)], offsets[index(i)] + lengths[index(i)])\<close> of the claim.
\<close>

theorem map_containsNull_after_set:
  assumes "setChildrenMayHaveNulls (MapReader d offsets lengths keyReader valReader km vm) = Inr r'"
  shows "\<exists>keyReader' valReader' k v.
           r' = MapReader d offsets lengths keyReader' valReader' (Some k) (Some v)
         \<and> setChildrenMayHaveNulls keyReader = Inr keyReader'
         \<and> setChildrenMayHaveNulls valReader = Inr valReader'
         \<and> mayHaveNullsRecursive keyReader' = Inr k
         \<and> mayHaveNullsRecursive valReader' = Inr v
         \<and> (\<forall>i. containsNull r' i =
               Inr (isNullAt d i
                    \<or> (k \<and> (\<exists>j. offsets (index d i) \<le> j
                             \<and> j < add32 (offsets (index d i)) (lengths (index d i))
                             \<and> containsNull keyReader' j = Inr True))
                    \<or> (v \<and> (\<exists>j. offsets (index d i) \<le> j
                             \<and> j < add32 (offsets (index d i)) (lengths (index d i))
                             \<and> containsNull valReader' j = Inr True))))
         \<and> (\<forall>i. isInt32 (offsets (index d i) + lengths (index d i)) \<longrightarrow>
               containsNull r' i =
               Inr (isNullAt d i
                    \<or> (k \<and> (\<exists>j. offsets (index d i) \<le> j
                             \<and> j < offsets (index d i) + lengths (index d i)
                             \<and> containsNull keyReader' j = Inr True))
                    \<or> (v \<and> (\<exists>j. offsets (index d i) \<le> j
                             \<and> j < offsets (index d i) + lengths (index d i)
                             \<and> containsNull valReader' j = Inr True))))"
proof -
  from assms obtain keyReader' valReader' k v where
    kr: "setChildrenMayHaveNulls keyReader = Inr keyReader'" and
    vr: "setChildrenMayHaveNulls valReader = Inr valReader'" and
    k: "mayHaveNullsRecursive keyReader' = Inr k" and
    v: "mayHaveNullsRecursive valReader' = Inr v" and
    r': "r' = MapReader d offsets lengths keyReader' valReader' (Some k) (Some v)"
    by (auto split: sum.splits)
  have rk: "\<And>s e. containsNullRange keyReader' s e = Inr (windowContainsNull keyReader' s e)"
    using ready_total[OF set_ready(1)[OF kr]] by simp
  have rv: "\<And>s e. containsNullRange valReader' s e = Inr (windowContainsNull valReader' s e)"
    using ready_total[OF set_ready(1)[OF vr]] by simp
  have main: "\<And>i. containsNull r' i =
          Inr (isNullAt d i
               \<or> (k \<and> windowContainsNull keyReader' (offsets (index d i))
                         (add32 (offsets (index d i)) (lengths (index d i))))
               \<or> (v \<and> windowContainsNull valReader' (offsets (index d i))
                         (add32 (offsets (index d i)) (lengths (index d i)))))"
    by (simp add: r' Let_def rk rv)
  have inrange: "\<And>i. isInt32 (offsets (index d i) + lengths (index d i)) \<longrightarrow>
          containsNull r' i =
          Inr (isNullAt d i
               \<or> (k \<and> windowContainsNull keyReader' (offsets (index d i))
                         (offsets (index d i) + lengths (index d i)))
               \<or> (v \<and> windowContainsNull valReader' (offsets (index d i))
                         (offsets (index d i) + lengths (index d i))))"
    by (simp add: main add32_id)
  show ?thesis
    using kr vr k v r' main inrange unfolding windowContainsNull_def by blast
qed

text \<open>
  Witness for C2, on the map column of the tests: the setup phase returns, the window
  ends of rows 0 and 1 are in range, the empty map of row 0 holds no null, and row 1
  holds one (the value of key 4, at position 2).
\<close>

theorem map_containsNull_after_set_witness:
  "setChildrenMayHaveNulls testMapReader
     = Inr (MapReader testMaps testOffsets testLengths
              (ScalarReader testKeys) (ScalarReader testValues) (Some False) (Some True))
   \<and> isInt32 (testOffsets (index testMaps 0) + testLengths (index testMaps 0))
   \<and> isInt32 (testOffsets (index testMaps 1) + testLengths (index testMaps 1))
   \<and> containsNull (MapReader testMaps testOffsets testLengths
              (ScalarReader testKeys) (ScalarReader testValues) (Some False) (Some True)) 0
       = Inr False
   \<and> containsNull (MapReader testMaps testOffsets testLengths
              (ScalarReader testKeys) (ScalarReader testValues) (Some False) (Some True)) 1
       = Inr True"
proof -
  let ?r = "MapReader testMaps testOffsets testLengths
              (ScalarReader testKeys) (ScalarReader testValues) (Some False) (Some True)"
  have s: "setChildrenMayHaveNulls (MapReader testMaps testOffsets testLengths
              (ScalarReader testKeys) (ScalarReader testValues) None None) = Inr ?r"
    by (simp add: testKeys_def testValues_def)
  have i0: "isInt32 (testOffsets (index testMaps 0) + testLengths (index testMaps 0))"
    and i1: "isInt32 (testOffsets (index testMaps 1) + testLengths (index testMaps 1))"
    by (simp_all add: isInt32_def testOffsets_def testLengths_def testMaps_def)
  from map_containsNull_after_set[OF s] have f: "\<And>i.
       isInt32 (testOffsets (index testMaps i) + testLengths (index testMaps i)) \<Longrightarrow>
       containsNull ?r i =
       Inr (isNullAt testMaps i
            \<or> (\<exists>j. testOffsets (index testMaps i) \<le> j
                   \<and> j < testOffsets (index testMaps i) + testLengths (index testMaps i)
                   \<and> containsNull (ScalarReader testValues) j = Inr True))"
    by (auto simp: add32_id)
  have r0: "containsNull ?r 0 = Inr False"
    by (subst f[OF i0]) (simp add: testMaps_def testOffsets_def testLengths_def)
  have "testOffsets 1 \<le> 2 \<and> 2 < testOffsets 1 + testLengths 1
      \<and> containsNull (ScalarReader testValues) 2 = Inr True"
    by (simp add: testOffsets_def testLengths_def testValues_def)
  then have r1: "containsNull ?r 1 = Inr True"
    unfolding f[OF i1] by (simp add: testMaps_def) blast
  show ?thesis using s i0 i1 r0 r1 by (simp add: testMapReader_def)
qed

subsection \<open>C3: the Array reader's null check\<close>

text \<open>
  C3: once \<^verbatim>\<open>setChildrenMayHaveNulls()\<close> has returned on an Array reader, for every
  row \<open>i\<close> \<^verbatim>\<open>containsNull(i)\<close> returns true if and only if the array row is null at
  \<open>i\<close>, or the child flag is set and some element of the window reports
  \<^verbatim>\<open>containsNull\<close>. The window starts at \<open>offsets[index(i)]\<close> and ends before the 32-bit
  sum of \<open>offsets[index(i)]\<close> and \<open>lengths[index(i)]\<close>; where the sum stays in the
  32-bit range this is the window
  \<open>[offsets[index(i)], offsets[index(i)] + lengths[index(i)])\<close> of the claim. For a row
  of length 0 whose own null bit is clear it returns false.
\<close>

theorem array_containsNull_after_set:
  assumes "setChildrenMayHaveNulls (ArrayReader d offsets lengths childReader vm) = Inr r'"
  shows "\<exists>childReader' v.
           r' = ArrayReader d offsets lengths childReader' (Some v)
         \<and> setChildrenMayHaveNulls childReader = Inr childReader'
         \<and> mayHaveNullsRecursive childReader' = Inr v
         \<and> (\<forall>i. containsNull r' i =
               Inr (isNullAt d i
                    \<or> (v \<and> (\<exists>j. offsets (index d i) \<le> j
                             \<and> j < add32 (offsets (index d i)) (lengths (index d i))
                             \<and> containsNull childReader' j = Inr True))))
         \<and> (\<forall>i. isInt32 (offsets (index d i) + lengths (index d i)) \<longrightarrow>
               containsNull r' i =
               Inr (isNullAt d i
                    \<or> (v \<and> (\<exists>j. offsets (index d i) \<le> j
                             \<and> j < offsets (index d i) + lengths (index d i)
                             \<and> containsNull childReader' j = Inr True))))
         \<and> (\<forall>i. isInt32 (offsets (index d i)) \<and> lengths (index d i) = 0 \<and> \<not> isNullAt d i
               \<longrightarrow> containsNull r' i = Inr False)"
proof -
  from assms obtain childReader' v where
    cr: "setChildrenMayHaveNulls childReader = Inr childReader'" and
    v: "mayHaveNullsRecursive childReader' = Inr v" and
    r': "r' = ArrayReader d offsets lengths childReader' (Some v)"
    by (auto split: sum.splits)
  have rc: "\<And>s e. containsNullRange childReader' s e = Inr (windowContainsNull childReader' s e)"
    using ready_total[OF set_ready(1)[OF cr]] by simp
  have main: "\<And>i. containsNull r' i =
          Inr (isNullAt d i
               \<or> (v \<and> windowContainsNull childReader' (offsets (index d i))
                         (add32 (offsets (index d i)) (lengths (index d i)))))"
    by (simp add: r' Let_def rc)
  have inrange: "\<And>i. isInt32 (offsets (index d i) + lengths (index d i)) \<longrightarrow>
          containsNull r' i =
          Inr (isNullAt d i
               \<or> (v \<and> windowContainsNull childReader' (offsets (index d i))
                         (offsets (index d i) + lengths (index d i))))"
    by (simp add: main add32_id)
  have empty: "\<And>i. isInt32 (offsets (index d i)) \<and> lengths (index d i) = 0 \<and> \<not> isNullAt d i
      \<longrightarrow> containsNull r' i = Inr False"
    using inrange by (auto simp: windowContainsNull_def)
  show ?thesis
    using cr v r' main inrange empty unfolding windowContainsNull_def by blast
qed

text \<open>
  Witness for C3, on the array column with rows of length 0, 3 and 5: the empty row
  holds no null, the two others do. On the column whose window ends beyond the 32-bit
  range the sum wraps, the window is empty and the row holds no null, although every
  element is null.
\<close>

theorem array_containsNull_after_set_witness:
  "setChildrenMayHaveNulls testArrayReader
     = Inr (ArrayReader testArrayRows testOffsets testLengths (ScalarReader testElements) (Some True))
   \<and> isInt32 (testOffsets (index testArrayRows 0))
   \<and> isInt32 (testOffsets (index testArrayRows 1) + testLengths (index testArrayRows 1))
   \<and> isInt32 (testOffsets (index testArrayRows 2) + testLengths (index testArrayRows 2))
   \<and> containsNull (ArrayReader testArrayRows testOffsets testLengths
         (ScalarReader testElements) (Some True)) 0 = Inr False
   \<and> containsNull (ArrayReader testArrayRows testOffsets testLengths
         (ScalarReader testElements) (Some True)) 1 = Inr True
   \<and> containsNull (ArrayReader testArrayRows testOffsets testLengths
         (ScalarReader testElements) (Some True)) 2 = Inr True
   \<and> setChildrenMayHaveNulls overflowArrayReader
     = Inr (ArrayReader testArrayRows (\<lambda>i. 2147483647) (\<lambda>i. 1)
             (ScalarReader allNullElements) (Some True))
   \<and> containsNull (ArrayReader testArrayRows (\<lambda>i. 2147483647) (\<lambda>i. 1)
         (ScalarReader allNullElements) (Some True)) 0 = Inr False"
proof -
  let ?r = "ArrayReader testArrayRows testOffsets testLengths (ScalarReader testElements) (Some True)"
  let ?o = "ArrayReader testArrayRows (\<lambda>i. 2147483647) (\<lambda>i. 1)
              (ScalarReader allNullElements) (Some True)"
  have so: "setChildrenMayHaveNulls (ArrayReader testArrayRows (\<lambda>i. 2147483647) (\<lambda>i. 1)
              (ScalarReader allNullElements) None) = Inr ?o"
    by (simp add: allNullElements_def)
  from array_containsNull_after_set[OF so] have g: "\<And>i. containsNull ?o i =
       Inr (isNullAt testArrayRows i
            \<or> (\<exists>j. 2147483647 \<le> j \<and> j < add32 2147483647 1
                   \<and> containsNull (ScalarReader allNullElements) j = Inr True))"
    by auto
  have o0: "containsNull ?o 0 = Inr False"
    by (subst g) (simp add: add32_def wrap32_def testArrayRows_def)
  have s: "setChildrenMayHaveNulls (ArrayReader testArrayRows testOffsets testLengths
              (ScalarReader testElements) None) = Inr ?r"
    by (simp add: testElements_def)
  have i0: "isInt32 (testOffsets (index testArrayRows 0))"
    and i1: "isInt32 (testOffsets (index testArrayRows 1) + testLengths (index testArrayRows 1))"
    and i2: "isInt32 (testOffsets (index testArrayRows 2) + testLengths (index testArrayRows 2))"
    by (simp_all add: isInt32_def testOffsets_def testLengths_def testArrayRows_def)
  from array_containsNull_after_set[OF s] have f: "\<And>i.
       isInt32 (testOffsets (index testArrayRows i) + testLengths (index testArrayRows i)) \<Longrightarrow>
       containsNull ?r i =
       Inr (isNullAt testArrayRows i
            \<or> (\<exists>j. testOffsets (index testArrayRows i) \<le> j
                   \<and> j < testOffsets (index testArrayRows i) + testLengths (index testArrayRows i)
                   \<and> containsNull (ScalarReader testElements) j = Inr True))"
    and e: "\<And>i. isInt32 (testOffsets (index testArrayRows i))
              \<and> testLengths (index testArrayRows i) = 0 \<and> \<not> isNullAt testArrayRows i
           \<longrightarrow> containsNull ?r i = Inr False"
    by (auto simp: add32_id)
  have r0: "containsNull ?r 0 = Inr False"
    using e[of 0] i0 by (simp add: testArrayRows_def testLengths_def)
  have "testOffsets 1 \<le> 1 \<and> 1 < testOffsets 1 + testLengths 1
      \<and> containsNull (ScalarReader testElements) 1 = Inr True"
    by (simp add: testOffsets_def testLengths_def testElements_def)
  then have r1: "containsNull ?r 1 = Inr True"
    unfolding f[OF i1] by (simp add: testArrayRows_def) blast
  have "testOffsets 2 \<le> 4 \<and> 4 < testOffsets 2 + testLengths 2
      \<and> containsNull (ScalarReader testElements) 4 = Inr True"
    by (simp add: testOffsets_def testLengths_def testElements_def)
  then have r2: "containsNull ?r 2 = Inr True"
    unfolding f[OF i2] by (simp add: testArrayRows_def) blast
  show ?thesis using s i0 i1 i2 r0 r1 r2 so o0 by (simp add: testArrayReader_def overflowArrayReader_def)
qed

subsection \<open>C4: the Generic reader\<close>

text \<open>
  C4: on a Generic reader \<^verbatim>\<open>containsNull(index)\<close>, \<^verbatim>\<open>containsNull(start, end)\<close>,
  \<^verbatim>\<open>mayHaveNullsRecursive()\<close> and \<^verbatim>\<open>setChildrenMayHaveNulls()\<close> fail with the
  unsupported error for every input; none of them returns a value.
\<close>

theorem generic_reader_unsupported:
  "containsNull (GenericReader d) i = Inl Unsupported
   \<and> containsNullRange (GenericReader d) s e = Inl Unsupported
   \<and> mayHaveNullsRecursive (GenericReader d) = Inl Unsupported
   \<and> setChildrenMayHaveNulls (GenericReader d) = Inl Unsupported"
  by simp

text \<open>A Generic reader over the values of the example map column.\<close>

theorem generic_reader_unsupported_witness:
  "containsNull (GenericReader testValues) 2 = Inl Unsupported
   \<and> containsNullRange (GenericReader testValues) 0 0 = Inl Unsupported
   \<and> mayHaveNullsRecursive (GenericReader testValues) = Inl Unsupported
   \<and> setChildrenMayHaveNulls (GenericReader testValues) = Inl Unsupported"
  using generic_reader_unsupported[of testValues 2 0 0] by simp

subsection \<open>C5: equality of two Optional Accessors\<close>

text \<open>
  C5: \<open>a == b\<close> never fails; it is true when both accessors are absent, false when
  exactly one is, and the comparison of the two values when both are present;
  \<open>a != b\<close> is its negation.
\<close>

theorem accessor_equality:
  "eq_acc eq a b =
     (if \<not> has_value a \<and> \<not> has_value b then Inr True
      else if has_value a \<noteq> has_value b then Inr False
      else Inr (eq (subscript_reader (acc_reader a) (acc_index a))
                   (subscript_reader (acc_reader b) (acc_index b))))
   \<and> neq_acc eq a b =
     (if \<not> has_value a \<and> \<not> has_value b then Inr False
      else if has_value a \<noteq> has_value b then Inr True
      else Inr (\<not> eq (subscript_reader (acc_reader a) (acc_index a))
                     (subscript_reader (acc_reader b) (acc_index b))))"
  by (auto simp: eq_acc_def neq_acc_def notE_def value_acc_def)

text \<open>
  The comparisons of the accessor test, on the values of the third map
  (\<open>10, null, 4, 4, null\<close> at the positions 3 to 7).
\<close>

theorem accessor_equality_witness:
  "eq_acc (=) \<lparr>acc_reader = ScalarReader testValues, acc_index = 5\<rparr>
              \<lparr>acc_reader = ScalarReader testValues, acc_index = 6\<rparr> = Inr True
   \<and> neq_acc (=) \<lparr>acc_reader = ScalarReader testValues, acc_index = 5\<rparr>
              \<lparr>acc_reader = ScalarReader testValues, acc_index = 3\<rparr> = Inr True
   \<and> neq_acc (=) \<lparr>acc_reader = ScalarReader testValues, acc_index = 4\<rparr>
              \<lparr>acc_reader = ScalarReader testValues, acc_index = 5\<rparr> = Inr True
   \<and> eq_acc (=) \<lparr>acc_reader = ScalarReader testValues, acc_index = 4\<rparr>
              \<lparr>acc_reader = ScalarReader testValues, acc_index = 7\<rparr> = Inr True"
  using accessor_equality[of "(=)" "\<lparr>acc_reader = ScalarReader testValues, acc_index = 5\<rparr>"
              "\<lparr>acc_reader = ScalarReader testValues, acc_index = 6\<rparr>"]
        accessor_equality[of "(=)" "\<lparr>acc_reader = ScalarReader testValues, acc_index = 5\<rparr>"
              "\<lparr>acc_reader = ScalarReader testValues, acc_index = 3\<rparr>"]
        accessor_equality[of "(=)" "\<lparr>acc_reader = ScalarReader testValues, acc_index = 4\<rparr>"
              "\<lparr>acc_reader = ScalarReader testValues, acc_index = 5\<rparr>"]
        accessor_equality[of "(=)" "\<lparr>acc_reader = ScalarReader testValues, acc_index = 4\<rparr>"
              "\<lparr>acc_reader = ScalarReader testValues, acc_index = 7\<rparr>"]
  by (simp add: has_value_def testValues_def notE_def)

subsection \<open>C6: equality of an Optional Accessor and a native optional\<close>

text \<open>
  C6: for an accessor \<open>a\<close> and a native optional \<open>x\<close>, \<open>a == x\<close> returns what
  \<open>x == a\<close> returns and \<open>a != x\<close> what \<open>x != a\<close> returns; the comparison never fails,
  is true when both are absent, false when exactly one is, and the comparison of the
  two values otherwise.
\<close>

theorem accessor_optional_equality_symmetric:
  "eq_acc_optional eq a x = eq_optional_acc eq x a
   \<and> neq_acc_optional eq a x = neq_optional_acc eq x a
   \<and> eq_optional_acc eq x a =
      (case x of
         None \<Rightarrow> Inr (\<not> has_value a)
       | Some y \<Rightarrow> Inr (has_value a \<and> eq y (subscript_reader (acc_reader a) (acc_index a))))
   \<and> neq_optional_acc eq x a =
      (case x of
         None \<Rightarrow> Inr (has_value a)
       | Some y \<Rightarrow> Inr (\<not> (has_value a \<and> eq y (subscript_reader (acc_reader a) (acc_index a)))))"
  by (auto simp: eq_acc_optional_def neq_acc_optional_def neq_optional_acc_def eq_optional_acc_def
      notE_def value_acc_def optional_value_def split: option.splits)

text \<open>The comparisons of the accessor test with \<^verbatim>\<open>std::optional\<close> values.\<close>

theorem accessor_optional_equality_symmetric_witness:
  "eq_acc_optional (\<lambda>x y. Value x = y)
       \<lparr>acc_reader = ScalarReader testValues, acc_index = 5\<rparr> (Some 4) = Inr True
   \<and> eq_optional_acc (\<lambda>x y. Value x = y) (Some 4)
       \<lparr>acc_reader = ScalarReader testValues, acc_index = 5\<rparr> = Inr True
   \<and> neq_acc_optional (\<lambda>x y. Value x = y)
       \<lparr>acc_reader = ScalarReader testValues, acc_index = 5\<rparr> (Some 8) = Inr True
   \<and> eq_acc_optional (\<lambda>x y. Value x = y)
       \<lparr>acc_reader = ScalarReader testValues, acc_index = 4\<rparr> None = Inr True
   \<and> eq_acc_optional (\<lambda>x y. Value x = y)
       \<lparr>acc_reader = ScalarReader testValues, acc_index = 4\<rparr> (Some 4) = Inr False"
  using accessor_optional_equality_symmetric[of "(\<lambda>x y. Value x = y)"
          "\<lparr>acc_reader = ScalarReader testValues, acc_index = 5\<rparr>" "Some 4"]
        accessor_optional_equality_symmetric[of "(\<lambda>x y. Value x = y)"
          "\<lparr>acc_reader = ScalarReader testValues, acc_index = 5\<rparr>" "Some 8"]
        accessor_optional_equality_symmetric[of "(\<lambda>x y. Value x = y)"
          "\<lparr>acc_reader = ScalarReader testValues, acc_index = 4\<rparr>" "None"]
        accessor_optional_equality_symmetric[of "(\<lambda>x y. Value x = y)"
          "\<lparr>acc_reader = ScalarReader testValues, acc_index = 4\<rparr>" "Some 4"]
  by (simp add: has_value_def testValues_def notE_def neq_acc_optional_def)

subsection \<open>C7: ArrayView\<close>

text \<open>
  C7: for every ArrayView built from a reader, an offset and a length,
  \<^verbatim>\<open>operator[](i)\<close> and \<^verbatim>\<open>at(i)\<close> return the accessor of the child reader at the 32-bit
  sum of \<open>i\<close> and the offset, \<^verbatim>\<open>begin()\<close> is the iterator at the offset and \<^verbatim>\<open>end()\<close>
  the iterator at the 32-bit sum of offset and length. Where the length is a valid
  size (not negative, within the 32-bit range of \<^verbatim>\<open>vector_size_t\<close>) and the window
  \<open>[offset, offset + length]\<close> lies in that range: \<^verbatim>\<open>size()\<close> is the length; for every
  \<open>i\<close> in \<open>[0, length)\<close>, \<^verbatim>\<open>operator[](i)\<close> and \<^verbatim>\<open>at(i)\<close> are at \<open>offset + i\<close>;
  \<^verbatim>\<open>end()\<close> is at \<open>offset + length\<close>; and the indexed loop, the iterator loop and the
  range-based loop all return, having visited the accessors at
  \<open>offset, ..., offset + length - 1\<close> in this order.
\<close>

theorem arrayView_access:
  "(\<forall>i. subscript_av \<lparr>av_reader = r, av_offset = off, av_size = len\<rparr> i
              = \<lparr>acc_reader = r, acc_index = add32 i off\<rparr>
          \<and> at_av \<lparr>av_reader = r, av_offset = off, av_size = len\<rparr> i
              = \<lparr>acc_reader = r, acc_index = add32 i off\<rparr>)
    \<and> begin_av \<lparr>av_reader = r, av_offset = off, av_size = len\<rparr>
        = IndexBasedIterator \<lparr>acc_reader = r, acc_index = off\<rparr>
    \<and> end_av \<lparr>av_reader = r, av_offset = off, av_size = len\<rparr>
        = IndexBasedIterator \<lparr>acc_reader = r, acc_index = add32 off len\<rparr>
    \<and> (0 \<le> len \<and> len \<le> 2147483647 \<and> isInt32 off \<and> isInt32 (off + len) \<longrightarrow>
        size_av \<lparr>av_reader = r, av_offset = off, av_size = len\<rparr> = nat len
      \<and> (\<forall>i. 0 \<le> i \<and> i < len \<longrightarrow>
            subscript_av \<lparr>av_reader = r, av_offset = off, av_size = len\<rparr> i
              = \<lparr>acc_reader = r, acc_index = off + i\<rparr>
          \<and> at_av \<lparr>av_reader = r, av_offset = off, av_size = len\<rparr> i
              = \<lparr>acc_reader = r, acc_index = off + i\<rparr>)
      \<and> end_av \<lparr>av_reader = r, av_offset = off, av_size = len\<rparr>
          = IndexBasedIterator \<lparr>acc_reader = r, acc_index = off + len\<rparr>
      \<and> indexedLoop \<lparr>av_reader = r, av_offset = off, av_size = len\<rparr> 0 []
          = map (\<lambda>k. \<lparr>acc_reader = r, acc_index = off + int k\<rparr>) [0..<nat len]
      \<and> iteratorLoop \<lparr>av_reader = r, av_offset = off, av_size = len\<rparr>
            (begin_av \<lparr>av_reader = r, av_offset = off, av_size = len\<rparr>) []
          = Some (map (\<lambda>k. \<lparr>acc_reader = r, acc_index = off + int k\<rparr>) [0..<nat len])
      \<and> rangeFor \<lparr>av_reader = r, av_offset = off, av_size = len\<rparr>
          = Some (map (\<lambda>k. \<lparr>acc_reader = r, acc_index = off + int k\<rparr>) [0..<nat len]))"
proof -
  let ?v = "\<lparr>av_reader = r, av_offset = off, av_size = len\<rparr>"
  let ?visited = "map (\<lambda>k. \<lparr>acc_reader = r, acc_index = off + int k\<rparr>) [0..<nat len]"
  have exact: "(\<forall>i. subscript_av ?v i = \<lparr>acc_reader = r, acc_index = add32 i off\<rparr>
          \<and> at_av ?v i = \<lparr>acc_reader = r, acc_index = add32 i off\<rparr>)
    \<and> begin_av ?v = IndexBasedIterator \<lparr>acc_reader = r, acc_index = off\<rparr>
    \<and> end_av ?v = IndexBasedIterator \<lparr>acc_reader = r, acc_index = add32 off len\<rparr>"
    by (simp add: subscript_av_def at_av_def begin_av_def end_av_def)
  have inrange: "size_av ?v = nat len
      \<and> (\<forall>i. 0 \<le> i \<and> i < len \<longrightarrow>
            subscript_av ?v i = \<lparr>acc_reader = r, acc_index = off + i\<rparr>
          \<and> at_av ?v i = \<lparr>acc_reader = r, acc_index = off + i\<rparr>)
      \<and> end_av ?v = IndexBasedIterator \<lparr>acc_reader = r, acc_index = off + len\<rparr>
      \<and> indexedLoop ?v 0 [] = ?visited
      \<and> iteratorLoop ?v (begin_av ?v) [] = Some ?visited
      \<and> rangeFor ?v = Some ?visited"
    if h: "0 \<le> len" "len \<le> 2147483647" "isInt32 off" "isInt32 (off + len)"
  proof -
    have sz: "size_av ?v = nat len"
      using h by (simp add: size_av_def)
    have en: "add32 off len = off + len"
      using h by (simp add: add32_id)
    have inr: "\<And>i. 0 \<le> i \<Longrightarrow> i < len \<Longrightarrow> add32 i off = off + i"
    proof -
      fix i :: int assume "0 \<le> i" "i < len"
      with h have "isInt32 (i + off)" by (simp add: isInt32_def)
      then show "add32 i off = off + i" by (simp add: add32_id add.commute)
    qed
    have sub: "\<And>i. 0 \<le> i \<Longrightarrow> i < len \<Longrightarrow>
        subscript_av ?v i = \<lparr>acc_reader = r, acc_index = off + i\<rparr>"
      by (simp add: subscript_av_def inr)
    have "map (\<lambda>k. subscript_av ?v (0 + int k)) [0..<nat len] = ?visited"
      by (rule map_cong) (simp_all add: sub)
    then have ix: "indexedLoop ?v 0 [] = ?visited"
      using indexedLoop_steps[of 0 "nat len" ?v "[]"] h sz by simp
    have it: "iteratorLoop ?v (begin_av ?v) [] = Some ?visited"
      using iteratorLoop_steps[of ?v r off "nat len" r "[]"] h en by (simp add: begin_av_def)
    have rf: "rangeFor ?v = Some ?visited"
      using rangeLoop_steps[of r off r "nat len" "[]"] h en
      by (simp add: rangeFor_def begin_av_def end_av_def)
    show ?thesis
      using sz sub ix it rf en by (simp add: at_av_def end_av_def)
  qed
  from exact inrange show ?thesis by blast
qed

text \<open>
  Witness for C7: the view of the third map's values, offset 3 and length 5. The three
  loops return the same five accessors. On a view at offset 2147483647 of length 1
  the 32-bit sums wrap: \<^verbatim>\<open>end()\<close> and \<^verbatim>\<open>operator[](1)\<close> are at -2147483648.
\<close>

theorem arrayView_access_witness:
  "(0::int) \<le> 5 \<and> (5::int) \<le> 2147483647 \<and> isInt32 3 \<and> isInt32 (3 + 5)
   \<and> size_av \<lparr>av_reader = ScalarReader testValues, av_offset = 3, av_size = 5\<rparr> = 5
   \<and> rangeFor \<lparr>av_reader = ScalarReader testValues, av_offset = 3, av_size = 5\<rparr>
       = Some [\<lparr>acc_reader = ScalarReader testValues, acc_index = 3\<rparr>,
               \<lparr>acc_reader = ScalarReader testValues, acc_index = 4\<rparr>,
               \<lparr>acc_reader = ScalarReader testValues, acc_index = 5\<rparr>,
               \<lparr>acc_reader = ScalarReader testValues, acc_index = 6\<rparr>,
               \<lparr>acc_reader = ScalarReader testValues, acc_index = 7\<rparr>]
   \<and> iteratorLoop \<lparr>av_reader = ScalarReader testValues, av_offset = 3, av_size = 5\<rparr>
         (begin_av \<lparr>av_reader = ScalarReader testValues, av_offset = 3, av_size = 5\<rparr>) []
       = rangeFor \<lparr>av_reader = ScalarReader testValues, av_offset = 3, av_size = 5\<rparr>
   \<and> Some (indexedLoop \<lparr>av_reader = ScalarReader testValues, av_offset = 3, av_size = 5\<rparr> 0 [])
       = rangeFor \<lparr>av_reader = ScalarReader testValues, av_offset = 3, av_size = 5\<rparr>
   \<and> end_av \<lparr>av_reader = ScalarReader testValues, av_offset = 2147483647, av_size = 1\<rparr>
       = IndexBasedIterator \<lparr>acc_reader = ScalarReader testValues, acc_index = - 2147483648\<rparr>
   \<and> subscript_av \<lparr>av_reader = ScalarReader testValues, av_offset = 2147483647, av_size = 1\<rparr> 1
       = \<lparr>acc_reader = ScalarReader testValues, acc_index = - 2147483648\<rparr>"
proof -
  let ?v = "\<lparr>av_reader = ScalarReader testValues, av_offset = 3, av_size = 5\<rparr>"
  let ?w = "\<lparr>av_reader = ScalarReader testValues, av_offset = 2147483647, av_size = 1\<rparr>"
  let ?visited = "map (\<lambda>k. \<lparr>acc_reader = ScalarReader testValues, acc_index = 3 + int k\<rparr>) [0..<nat 5]"
  have h: "(0::int) \<le> 5 \<and> (5::int) \<le> 2147483647 \<and> isInt32 3 \<and> isInt32 (3 + 5)"
    by (simp add: isInt32_def)
  from arrayView_access[of "ScalarReader testValues" 3 5] h
  have sz: "size_av ?v = nat 5"
    and ix: "indexedLoop ?v 0 [] = ?visited"
    and it: "iteratorLoop ?v (begin_av ?v) [] = Some ?visited"
    and rf: "rangeFor ?v = Some ?visited"
    by blast+
  from arrayView_access[of "ScalarReader testValues" 2147483647 1]
  have en: "end_av ?w = IndexBasedIterator
        \<lparr>acc_reader = ScalarReader testValues, acc_index = add32 2147483647 1\<rparr>"
    and su: "subscript_av ?w 1 = \<lparr>acc_reader = ScalarReader testValues, acc_index = add32 1 2147483647\<rparr>"
    by blast+
  show ?thesis
    unfolding sz ix it rf en su using h by (simp add: upt_rec add32_def wrap32_def)
qed

subsection \<open>C8: the may-have-nulls flag after the setup phase\<close>

text \<open>
  C8 as stated does not hold: the flag is not exact. On the constant-encoded array
  column \<open>constantArrayReader\<close> every logical row is the array \<open>[2]\<close>, which holds no
  null, and the column itself has no null row; yet the elements vector holds a null
  (in the array no row refers to), so after the setup phase
  \<^verbatim>\<open>mayHaveNullsRecursive()\<close> returns true. The flags of this column are sound.
\<close>

theorem mayHaveNullsRecursive_not_exact:
  "setChildrenMayHaveNulls constantArrayReader
     = Inr (ArrayReader constantArrayRows constantArrayOffsets constantArrayLengths
             (ScalarReader constantArrayElements) (Some True))
   \<and> mayHaveNullsRecursive (ArrayReader constantArrayRows constantArrayOffsets constantArrayLengths
             (ScalarReader constantArrayElements) (Some True)) = Inr True
   \<and> \<not> spec_rowHasNull constantArrayReader 0
   \<and> soundFlags constantArrayReader"
  by (simp add: constantArrayReader_def constantArrayRows_def constantArrayElements_def
      constantArrayOffsets_def constantArrayLengths_def soundSource_def)

text \<open>
  C8, amended: after \<^verbatim>\<open>setChildrenMayHaveNulls()\<close> has returned,
  \<^verbatim>\<open>mayHaveNullsRecursive()\<close> returns the flag of the whole batch: the disjunction of
  the \<^verbatim>\<open>mayHaveNulls()\<close> flags of the decoded sources of the tree (for a Row reader, its
  decoded source's own recursive flag). Where the flags of the sources are sound it
  returns true whenever the reader's row \<open>i\<close> is null or the corresponding row of some
  descendant is; the converse is not promised.
\<close>

theorem mayHaveNullsRecursive_after_set:
  assumes "setChildrenMayHaveNulls r = Inr r'"
  shows "mayHaveNullsRecursive r' = Inr (subtreeMayHaveNulls r)
       \<and> (soundFlags r \<and> spec_rowHasNull r i \<longrightarrow> mayHaveNullsRecursive r' = Inr True)"
  using assms set_mayHaveNullsRecursive(1)[OF assms] sound_rowHasNull(1)[of r i] by auto

text \<open>
  Witness for C8, on the map column of the tests: the flags are sound, row 1 holds a
  null value, and the flag is true after the setup phase.
\<close>

theorem mayHaveNullsRecursive_after_set_witness:
  "setChildrenMayHaveNulls testMapReader
     = Inr (MapReader testMaps testOffsets testLengths
              (ScalarReader testKeys) (ScalarReader testValues) (Some False) (Some True))
   \<and> soundFlags testMapReader \<and> spec_rowHasNull testMapReader 1
   \<and> mayHaveNullsRecursive (MapReader testMaps testOffsets testLengths
              (ScalarReader testKeys) (ScalarReader testValues) (Some False) (Some True)) = Inr True"
proof -
  let ?r = "MapReader testMaps testOffsets testLengths
              (ScalarReader testKeys) (ScalarReader testValues) (Some False) (Some True)"
  have s: "setChildrenMayHaveNulls testMapReader = Inr ?r"
    by (simp add: testMapReader_def testKeys_def testValues_def)
  have sf: "soundFlags testMapReader"
    by (simp add: testMapReader_def soundSource_def testKeys_def testValues_def testMaps_def)
  have "(2::int) \<in> {testOffsets (index testMaps 1)
          ..< testOffsets (index testMaps 1) + testLengths (index testMaps 1)}"
    by (simp add: testOffsets_def testLengths_def testMaps_def)
  moreover have "spec_rowHasNull (ScalarReader testValues) 2"
    by (simp add: testValues_def)
  ultimately have rn: "spec_rowHasNull testMapReader 1"
    unfolding testMapReader_def spec_rowHasNull.simps by blast
  from mayHaveNullsRecursive_after_set[OF s, of 1] sf rn s show ?thesis by simp
qed

subsection \<open>C9: the indices of a MapView element\<close>



subsection \<open>C10: ArrayView::mayHaveNulls\<close>

text \<open>
  C10: \<^verbatim>\<open>mayHaveNulls()\<close> of an ArrayView returns false for every view, whatever its
  reader and window hold.
\<close>

theorem arrayView_mayHaveNulls_false:
  "mayHaveNulls_av v = False"
  by (simp add: mayHaveNulls_av_def)

text \<open>
  The view of the third example map's values holds a null at its position 1, and
  \<^verbatim>\<open>mayHaveNulls()\<close> is false all the same.
\<close>

theorem arrayView_mayHaveNulls_false_witness:
  "\<not> has_value (subscript_av \<lparr>av_reader = ScalarReader testValues, av_offset = 3, av_size = 5\<rparr> 1)
   \<and> mayHaveNulls_av \<lparr>av_reader = ScalarReader testValues, av_offset = 3, av_size = 5\<rparr> = False"
  using arrayView_mayHaveNulls_false[of
          "\<lparr>av_reader = ScalarReader testValues, av_offset = 3, av_size = 5\<rparr>"]
  by (simp add: subscript_av_def has_value_def testValues_def add32_def wrap32_def)

end
